theory Spec2Isabelle
  imports Complex_Main "HOL-Library.Multiset"
begin

section \<open>Deep-MRI-Reconstruction: the 2-D training script \<open>main_2d.py\<close>\<close>

text \<open>
  A shallow embedding of \<open>src/main_2d.py\<close>. Python exceptions are values of the type
  \<open>error\<close>; a function that may raise returns \<open>error + 'a\<close>, with \<open>Inl\<close> for the
  exception. Python floats (losses, hyper-parameters) are modelled as \<open>real\<close>; the
  values of the metric, which can be infinite, have a type of their own. The state of \<open>np.random\<close> is an explicit value of an abstract type \<open>'r\<close>
  that every random operation takes and returns; the trainable parameters of the
  network are an explicit value of an abstract type \<open>'p\<close>.
\<close>

datatype error = ValueError | ZeroDivisionError | UnboundLocalError | IndexError | InvalidShape

subsection \<open>\<open>xrange\<close> and \<open>iterate_minibatch\<close>\<close>

text \<open>
  \<open>xrange(0, n, step)\<close> for \<open>step > 0\<close>: the indices \<open>i, i + step, \<dots>\<close> below \<open>n\<close>.
\<close>

function xrange_from :: "nat \<Rightarrow> nat \<Rightarrow> nat \<Rightarrow> nat list" where
  "xrange_from i n step =
     (if step = 0 \<or> n \<le> i then [] else i # xrange_from (i + step) n step)"
  by pat_completeness auto
termination
  by (relation "measure (\<lambda>(i, n, step). n - i)") auto

declare xrange_from.simps [simp del]

text \<open>
  \<open>xrange(0, n, step)\<close> with \<open>n = len(data)\<close>: a zero step raises \<open>ValueError\<close>, a
  negative step gives the empty range (the start \<open>0\<close> is not above \<open>n\<close>).
\<close>

definition xrange :: "nat \<Rightarrow> int \<Rightarrow> error + nat list" where
  "xrange n step =
     (if step = 0 then Inl ValueError
      else if step < 0 then Inr []
      else Inr (xrange_from 0 n (nat step)))"

text \<open>
  \<^verbatim>\<open>
  def iterate_minibatch(data, batch_size, shuffle=True):
      n = len(data)
      if shuffle:
          data = np.random.permutation(data)
      for i in xrange(0, n, batch_size):
          yield data[i:i+batch_size]
  \<close>
  \<open>permutation r n\<close> stands for the draw of \<open>np.random.permutation\<close> on an array of
  \<open>n\<close> entries in the random state \<open>r\<close>: the list of source indices, in the order of the
  result, and the next random state. The slice \<open>data[i:i+batch_size]\<close> with
  \<open>0 \<le> i\<close> and \<open>0 < batch_size\<close> is \<open>take batch_size (drop i data)\<close>. The generator is
  modelled by the list of all the batches it yields.
\<close>

definition shuffled :: "nat list \<Rightarrow> 'a list \<Rightarrow> 'a list" where
  "shuffled p data = map (\<lambda>i. data ! i) p"

definition iterate_minibatch ::
  "('r \<Rightarrow> nat \<Rightarrow> nat list \<times> 'r) \<Rightarrow> 'a list \<Rightarrow> int \<Rightarrow> bool \<Rightarrow> 'r
     \<Rightarrow> error + ('a list list \<times> 'r)" where
  "iterate_minibatch permutation data batch_size shuffle r =
     (let n = length data;
          (data', r') = (if shuffle
                         then (case permutation r n of (p, r') \<Rightarrow> (shuffled p data, r'))
                         else (data, r))
      in case xrange n batch_size of
           Inl e \<Rightarrow> Inl e
         | Inr is \<Rightarrow> Inr (map (\<lambda>i. take (nat batch_size) (drop i data')) is, r'))"

text \<open>
  The consecutive slices of a list, \<open>batch_size\<close> entries each, and the contract of
  \<open>np.random.permutation\<close>: the draw for \<open>n\<close> entries holds each index below \<open>n\<close>
  once.
\<close>

definition batches_of :: "'a list \<Rightarrow> nat \<Rightarrow> 'a list list" where
  "batches_of xs B = map (\<lambda>i. take B (drop i xs)) (xrange_from 0 (length xs) B)"

definition permutation_draw :: "nat list \<Rightarrow> nat \<Rightarrow> bool" where
  "permutation_draw p n \<longleftrightarrow> mset p = mset [0..<n]"

subsection \<open>Arrays\<close>

text \<open>
  A numpy array is a nested list, outermost axis first. A complex number is the pair of
  its real and imaginary parts, over any scalar type \<open>'a\<close>: the format adapter moves
  scalars and never computes with them.
\<close>

type_synonym 'a img = "'a list list"

type_synonym 'a tensor = "'a list list list list"

subsection \<open>Format adapter\<close>

text \<open>
  Modelled from the spec: \<open>to_lasagne_format\<close> and \<open>from_lasagne_format\<close> of
  \<open>cascadenet/util/helpers.py\<close>, which \<open>main_2d.py\<close> imports and which is not among
  the sources. The spec, section 4.3: the forward conversion takes a batch of complex
  2-D arrays to a real tensor of shape \<open>(batch, 2, Nx, Ny)\<close>, stacking the real and the
  imaginary parts as two channels; for a mask it replicates the real-valued mask into
  both channels. The inverse takes channel 0 as the real part and channel 1 as the
  imaginary part; for a mask it takes channel 0 only. A tensor whose channel axis does
  not have length 2 is refused with \<open>InvalidShape\<close>.
\<close>

definition to_lasagne_format :: "('a \<times> 'a) img list \<Rightarrow> 'a tensor" where
  "to_lasagne_format x = map (\<lambda>im. [map (map fst) im, map (map snd) im]) x"

definition to_lasagne_format_mask :: "'m img list \<Rightarrow> 'm tensor" where
  "to_lasagne_format_mask x = map (\<lambda>m. [m, m]) x"

fun r2c :: "'a img list \<Rightarrow> error + ('a \<times> 'a) img" where
  "r2c [re, im] = Inr (map (\<lambda>(a, b). zip a b) (zip re im))"
| "r2c _ = Inl InvalidShape"

fun from_lasagne_format :: "'a tensor \<Rightarrow> error + ('a \<times> 'a) img list" where
  "from_lasagne_format [] = Inr []"
| "from_lasagne_format (t # ts) =
     (case r2c t of
        Inl e \<Rightarrow> Inl e
      | Inr im \<Rightarrow> (case from_lasagne_format ts of
                     Inl e \<Rightarrow> Inl e
                   | Inr ims \<Rightarrow> Inr (im # ims)))"

fun mask_r2c :: "'m img list \<Rightarrow> error + 'm img" where
  "mask_r2c [m0, m1] = Inr m0"
| "mask_r2c _ = Inl InvalidShape"

fun from_lasagne_format_mask :: "'m tensor \<Rightarrow> error + 'm img list" where
  "from_lasagne_format_mask [] = Inr []"
| "from_lasagne_format_mask (t # ts) =
     (case mask_r2c t of
        Inl e \<Rightarrow> Inl e
      | Inr m \<Rightarrow> (case from_lasagne_format_mask ts of
                    Inl e \<Rightarrow> Inl e
                  | Inr ms \<Rightarrow> Inr (m # ms)))"

subsection \<open>Mask generator\<close>

text \<open>
  Modelled from the spec: \<open>cartesian_mask\<close> of \<open>utils/compressed_sensing.py\<close>, which
  \<open>main_2d.py\<close> imports and which is not among the sources. The spec, section 4.1: the
  generator draws, independently for each batch element, which k-space lines are
  retained; if \<open>sample_centre\<close> is set it forces the \<open>sample_n\<close> lowest-frequency lines
  to 1 regardless of the draw; the lines that \<open>sample_high_freq\<close> includes only add
  ones, and are part of the draw here; if \<open>centred\<close> is false the mask is stored in
  unshifted Fourier order, zero frequency at index 0. A Cartesian mask is made of full
  lines: every entry of line \<open>x\<close> has the value of the line.

  \<open>line_draw r ivar sample_high_freq sample_n\<close> stands for the random draw in the
  random state \<open>r\<close>: whether line \<open>j\<close> of batch element \<open>b\<close> is drawn, in centred order
  (zero frequency at index \<open>Nx div 2\<close>), and the next random state.
\<close>

text \<open>The frequency of index \<open>j\<close> among \<open>Nx\<close> lines, in centred and in unshifted order.\<close>

definition centred_freq :: "nat \<Rightarrow> nat \<Rightarrow> int" where
  "centred_freq Nx j = int j - int (Nx div 2)"

definition fftfreq :: "nat \<Rightarrow> nat \<Rightarrow> int" where
  "fftfreq Nx i = (if i < (Nx + 1) div 2 then int i else int i - int Nx)"

definition line_freq :: "bool \<Rightarrow> nat \<Rightarrow> nat \<Rightarrow> int" where
  "line_freq centred Nx i = (if centred then centred_freq Nx i else fftfreq Nx i)"

text \<open>
  The \<open>k\<close> lowest frequencies: \<open>k div 2\<close> negative ones, zero, and the positive ones
  that remain.
\<close>

definition lowest_freq :: "nat \<Rightarrow> int \<Rightarrow> bool" where
  "lowest_freq k f \<longleftrightarrow> - int (k div 2) \<le> f \<and> f < int k - int (k div 2)"

definition ifftshift :: "'a list \<Rightarrow> 'a list" where
  "ifftshift xs = rotate (length xs div 2) xs"

definition cartesian_mask ::
  "('r \<Rightarrow> real \<Rightarrow> bool \<Rightarrow> nat \<Rightarrow> (nat \<Rightarrow> nat \<Rightarrow> bool) \<times> 'r)
     \<Rightarrow> nat \<times> nat \<times> nat \<Rightarrow> real \<Rightarrow> bool \<Rightarrow> bool \<Rightarrow> bool \<Rightarrow> nat \<Rightarrow> 'r
     \<Rightarrow> bool img list \<times> 'r" where
  "cartesian_mask line_draw shape ivar centred sample_high_freq sample_centre sample_n r =
     (case shape of (N, Nx, Ny) \<Rightarrow>
      case line_draw r ivar sample_high_freq sample_n of (d, r') \<Rightarrow>
        (map (\<lambda>b. let row = map (\<lambda>j. d b j \<or>
                                  (sample_centre \<and> lowest_freq sample_n (centred_freq Nx j)))
                             [0..<Nx];
                       row' = (if centred then row else ifftshift row)
                   in map (replicate Ny) row')
             [0..<N],
         r'))"

text \<open>\<open>mask.size\<close> and \<open>np.sum(mask)\<close>.\<close>

definition mask_size :: "bool img list \<Rightarrow> nat" where
  "mask_size m = sum_list (map (\<lambda>im. sum_list (map length im)) m)"

definition mask_sum :: "bool img list \<Rightarrow> nat" where
  "mask_sum m = sum_list (map (\<lambda>im. sum_list (map (\<lambda>row. length (filter id row)) im)) m)"

text \<open>
  \<^verbatim>\<open>
  dummy_mask = cs.cartesian_mask((100, Nx, Ny), gauss_ivar,
                                 sample_high_freq=True,
                                 sample_centre=True, sample_n=8)
  acc = dummy_mask.size / np.sum(dummy_mask)
  \<close>
  with \<open>Nx, Ny = 128, 128\<close>. The call leaves \<open>centred\<close> to the default of the generator,
  a parameter here.
\<close>

definition acceleration_rate ::
  "('r \<Rightarrow> real \<Rightarrow> bool \<Rightarrow> nat \<Rightarrow> (nat \<Rightarrow> nat \<Rightarrow> bool) \<times> 'r) \<Rightarrow> bool \<Rightarrow> real \<Rightarrow> 'r
     \<Rightarrow> real" where
  "acceleration_rate line_draw centred_default gauss_ivar r =
     (let dummy_mask = fst (cartesian_mask line_draw (100, 128, 128) gauss_ivar
                              centred_default True True 8 r)
      in real (mask_size dummy_mask) / real (mask_sum dummy_mask))"

subsection \<open>Values of the metric\<close>

text \<open>
  A value of numpy's \<open>float64\<close>, as the metric returns it and as the two PSNR
  accumulators hold it: a finite number, plus or minus infinity, or not-a-number. The
  finite values are reals: rounding and overflow are not modelled. The sum, the true
  division by an integer and the comparison \<open><\<close> are those of IEEE 754: a
  not-a-number absorbs, the sum of the two infinities is not-a-number, an infinity
  divided by a nonzero integer is an infinity, and no comparison with a not-a-number
  holds.
\<close>

datatype npfloat = Finite real | PInf | NInf | NaN

fun np_add :: "npfloat \<Rightarrow> npfloat \<Rightarrow> npfloat" where
  "np_add (Finite a) (Finite b) = Finite (a + b)"
| "np_add NaN y = NaN"
| "np_add x NaN = NaN"
| "np_add PInf NInf = NaN"
| "np_add NInf PInf = NaN"
| "np_add PInf y = PInf"
| "np_add x PInf = PInf"
| "np_add NInf y = NInf"
| "np_add x NInf = NInf"

fun np_less :: "npfloat \<Rightarrow> npfloat \<Rightarrow> bool" where
  "np_less (Finite a) (Finite b) = (a < b)"
| "np_less (Finite a) PInf = True"
| "np_less NInf (Finite b) = True"
| "np_less NInf PInf = True"
| "np_less x y = False"

text \<open>
  The true division of an accumulator by an integer. An accumulator starts as the
  integer \<open>0\<close> and the divisor is 0 only when the pass ran over no batch, so a
  division by 0 divides the integer \<open>0\<close> by the integer \<open>0\<close>, which raises
  \<open>ZeroDivisionError\<close>.
\<close>

definition np_truediv :: "npfloat \<Rightarrow> int \<Rightarrow> error + npfloat" where
  "np_truediv x d =
     (if d = 0 then Inl ZeroDivisionError
      else Inr (case x of
                  Finite a \<Rightarrow> Finite (a / real_of_int d)
                | PInf \<Rightarrow> (if 0 < d then PInf else NInf)
                | NInf \<Rightarrow> (if 0 < d then NInf else PInf)
                | NaN \<Rightarrow> NaN))"

text \<open>
  The sum of a list of values, added one after the other to an accumulator that starts
  at 0, and their arithmetic mean: the sum divided by the number of values.
\<close>

definition np_sum :: "npfloat list \<Rightarrow> npfloat" where
  "np_sum xs = fold (\<lambda>x acc. np_add acc x) xs (Finite 0)"

definition np_mean :: "npfloat list \<Rightarrow> error + npfloat" where
  "np_mean xs = np_truediv (np_sum xs) (int (length xs))"

subsection \<open>External collaborators\<close>

text \<open>
  What \<open>main_2d.py\<close> calls and does not define: the random generator of numpy, the
  undersampling simulator \<open>cs.undersample\<close> (with \<open>centred=False, norm='ortho'\<close>), the
  two compiled functions of the network and the metric \<open>complex_psnr\<close> (with
  \<open>peak='max'\<close>). They are the fields of an environment. \<open>train_fn\<close> updates the
  parameters of the network, \<open>val_fn\<close> reads them. They are taken to return; a failure
  inside one of them ends the run and is not modelled.
\<close>

record ('r, 'p, 'a) env =
  np_random_permutation :: "'r \<Rightarrow> nat \<Rightarrow> nat list \<times> 'r"
  line_draw :: "'r \<Rightarrow> real \<Rightarrow> bool \<Rightarrow> nat \<Rightarrow> (nat \<Rightarrow> nat \<Rightarrow> bool) \<times> 'r"
  undersample ::
    "('a \<times> 'a) img list \<Rightarrow> bool img list \<Rightarrow> ('a \<times> 'a) img list \<times> ('a \<times> 'a) img list"
  train_fn :: "'p \<Rightarrow> 'a tensor \<Rightarrow> bool tensor \<Rightarrow> 'a tensor \<Rightarrow> 'a tensor \<Rightarrow> real \<times> 'p"
  val_fn :: "'p \<Rightarrow> 'a tensor \<Rightarrow> bool tensor \<Rightarrow> 'a tensor \<Rightarrow> 'a tensor \<Rightarrow> real \<times> 'a tensor"
  complex_psnr :: "('a \<times> 'a) img \<Rightarrow> ('a \<times> 'a) img \<Rightarrow> npfloat"

subsection \<open>\<open>prep_input\<close>\<close>

text \<open>\<open>im.shape\<close> of a batch of shape \<open>(n, Nx, Ny)\<close>.\<close>

definition shape3 :: "'b img list \<Rightarrow> nat \<times> nat \<times> nat" where
  "shape3 im =
     (length im,
      (case im of [] \<Rightarrow> 0 | x # _ \<Rightarrow> length x),
      (case im of [] \<Rightarrow> 0 | x # _ \<Rightarrow> (case x of [] \<Rightarrow> 0 | row # _ \<Rightarrow> length row)))"

text \<open>
  \<^verbatim>\<open>
  def prep_input(im, gauss_ivar=1e-3):
      mask = cs.cartesian_mask(im.shape, gauss_ivar,
                               centred=False,
                               sample_high_freq=True,
                               sample_centre=True,
                               sample_n=8)
      im_und, k_und = cs.undersample(im, mask, centred=False, norm='ortho')
      im_gnd_l = to_lasagne_format(im)
      im_und_l = to_lasagne_format(im_und)
      k_und_l = to_lasagne_format(k_und)
      mask_l = to_lasagne_format(mask, mask=True)
      return im_und_l, k_und_l, mask_l, im_gnd_l
  \<close>
  The variable \<open>mask\<close> is written \<open>msk\<close>.
\<close>

definition prep_input_mask ::
  "('r, 'p, 'a) env \<Rightarrow> ('a \<times> 'a) img list \<Rightarrow> real \<Rightarrow> 'r \<Rightarrow> bool img list \<times> 'r" where
  "prep_input_mask E im gauss_ivar r =
     cartesian_mask (line_draw E) (shape3 im) gauss_ivar False True True 8 r"

definition prep_input ::
  "('r, 'p, 'a) env \<Rightarrow> ('a \<times> 'a) img list \<Rightarrow> real \<Rightarrow> 'r
     \<Rightarrow> ('a tensor \<times> 'a tensor \<times> bool tensor \<times> 'a tensor) \<times> 'r" where
  "prep_input E im gauss_ivar r =
     (case prep_input_mask E im gauss_ivar r of (msk, r') \<Rightarrow>
      case undersample E im msk of (im_und, k_und) \<Rightarrow>
        (let im_gnd_l = to_lasagne_format im;
             im_und_l = to_lasagne_format im_und;
             k_und_l = to_lasagne_format k_und;
             mask_l = to_lasagne_format_mask msk
         in ((im_und_l, k_und_l, mask_l, im_gnd_l), r')))"

subsection \<open>\<open>compile_fn\<close>\<close>

text \<open>
  The symbolic expressions that \<open>compile_fn\<close> builds over a network \<open>'n\<close>, and the
  functions it compiles from them.
\<close>

datatype 'n expr =
    Get_output 'n
  | Squared_error_mean_2 "'n expr"
  | Regularize_network_params_l2 'n
  | Times "'n expr" real
  | Plus "'n expr" "'n expr"

datatype 'n updates = Adam "'n expr" 'n real

datatype 'n theano_function = Theano_function "'n expr list" "'n updates option"

record args =
  args_lr :: string
  args_l2 :: string

text \<open>
  \<^verbatim>\<open>
  def compile_fn(network, net_config, args):
      base_lr = float(args.lr[0])
      l2 = float(args.l2[0])
      ...
      pred = lasagne.layers.get_output(network)
      loss_sq = lasagne.objectives.squared_error(target_var, pred).mean() * 2
      if l2:
          l2_penalty = lasagne.regularization.regularize_network_params(network,
                                                                        lasagne.regularization.l2)
          loss = loss_sq + l2_penalty * l2
      update_rule = lasagne.updates.adam
      params = lasagne.layers.get_all_params(network, trainable=True)
      updates = update_rule(loss, params, learning_rate=base_lr)
      train_fn = theano.function([input_var, mask_var, kspace_var, target_var],
                                 [loss], updates=updates,
                                 on_unused_input='ignore')
      val_fn = theano.function([input_var, mask_var, kspace_var, target_var],
                               [loss, pred],
                               on_unused_input='ignore')
      return train_fn, val_fn
  \<close>
  The fields \<open>args_lr\<close> and \<open>args_l2\<close> are \<open>args.lr[0]\<close> and \<open>args.l2[0]\<close>.
  \<open>float\<close> is a parameter: the value of a string, or \<open>None\<close> where Python raises
  \<open>ValueError\<close>. The local variable \<open>loss\<close> is an option: \<open>None\<close> while no assignment
  has bound it, and reading it then raises \<open>UnboundLocalError\<close>. A float is true when
  it is not zero.
\<close>

definition compile_fn ::
  "(string \<Rightarrow> real option) \<Rightarrow> 'n \<Rightarrow> args
     \<Rightarrow> error + ('n theano_function \<times> 'n theano_function)" where
  "compile_fn float network args =
     (case float (args_lr args) of
        None \<Rightarrow> Inl ValueError
      | Some base_lr \<Rightarrow>
     (case float (args_l2 args) of
        None \<Rightarrow> Inl ValueError
      | Some l2 \<Rightarrow>
     (let pred = Get_output network;
          loss_sq = Squared_error_mean_2 pred;
          loss = (if l2 \<noteq> 0
                  then Some (Plus loss_sq (Times (Regularize_network_params_l2 network) l2))
                  else None)
      in case loss of
           None \<Rightarrow> Inl UnboundLocalError
         | Some loss \<Rightarrow>
             (let updates = Adam loss network base_lr;
                  train_fn = Theano_function [loss] (Some updates);
                  val_fn = Theano_function [loss, pred] None
              in Inr (train_fn, val_fn)))))"

subsection \<open>The epoch loop of \<open>__main__\<close>\<close>

record config =
  gauss_ivar :: real
  num_epoch :: int
  batch_size :: int
  save_fig :: bool

definition save_every :: int where
  "save_every = 5"

text \<open>
  The training pass:
  \<^verbatim>\<open>
  train_err = 0
  train_batches = 0
  for im in iterate_minibatch(train, batch_size, shuffle=True):
      im_und, k_und, mask, im_gnd = prep_input(im, gauss_ivar=gauss_ivar)
      err = train_fn(im_und, mask, k_und, im_gnd)[0]
      train_err += err
      train_batches += 1
  \<close>
  The loop state is the random state, the parameters of the network, \<open>train_err\<close> and
  \<open>train_batches\<close>.
\<close>

fun train_loop ::
  "('r, 'p, 'a) env \<Rightarrow> real \<Rightarrow> ('a \<times> 'a) img list list \<Rightarrow> 'r \<times> 'p \<times> real \<times> int
     \<Rightarrow> 'r \<times> 'p \<times> real \<times> int" where
  "train_loop E g [] s = s"
| "train_loop E g (im # ims) (r, p, train_err, train_batches) =
     (case prep_input E im g r of ((im_und, k_und, msk, im_gnd), r') \<Rightarrow>
      case train_fn E p im_und msk k_und im_gnd of (err, p') \<Rightarrow>
        train_loop E g ims (r', p', train_err + err, train_batches + 1))"

text \<open>
  The body of the loop above: what the training pass does with one minibatch. It
  undersamples the batch, runs one optimisation step of the network on it, adds the
  loss to \<open>train_err\<close> and counts the batch.
\<close>

definition train_step ::
  "('r, 'p, 'a) env \<Rightarrow> real \<Rightarrow> ('a \<times> 'a) img list \<Rightarrow> 'r \<times> 'p \<times> real \<times> int
     \<Rightarrow> 'r \<times> 'p \<times> real \<times> int" where
  "train_step E g im s =
     (case s of (r, p, train_err, train_batches) \<Rightarrow>
      case prep_input E im g r of ((im_und, k_und, msk, im_gnd), r') \<Rightarrow>
      case train_fn E p im_und msk k_und im_gnd of (err, p') \<Rightarrow>
        (r', p', train_err + err, train_batches + 1))"

text \<open>
  The validation pass:
  \<^verbatim>\<open>
  validate_err = 0
  validate_batches = 0
  for im in iterate_minibatch(validate, batch_size, shuffle=False):
      im_und, k_und, mask, im_gnd = prep_input(im, gauss_ivar=gauss_ivar)
      err, pred = val_fn(im_und, mask, k_und, im_gnd)
      validate_err += err
      validate_batches += 1
  \<close>
\<close>

fun validate_loop ::
  "('r, 'p, 'a) env \<Rightarrow> real \<Rightarrow> 'p \<Rightarrow> ('a \<times> 'a) img list list \<Rightarrow> 'r \<times> real \<times> int
     \<Rightarrow> 'r \<times> real \<times> int" where
  "validate_loop E g p [] s = s"
| "validate_loop E g p (im # ims) (r, validate_err, validate_batches) =
     (case prep_input E im g r of ((im_und, k_und, msk, im_gnd), r') \<Rightarrow>
      case val_fn E p im_und msk k_und im_gnd of (err, pred) \<Rightarrow>
        validate_loop E g p ims (r', validate_err + err, validate_batches + 1))"

text \<open>
  The inner loop of the test pass:
  \<^verbatim>\<open>
  for im_i, und_i, pred_i in zip(im,
                                 from_lasagne_format(im_und),
                                 from_lasagne_format(pred)):
      base_psnr += complex_psnr(im_i, und_i, peak='max')
      test_psnr += complex_psnr(im_i, pred_i, peak='max')
  \<close>
\<close>

fun psnr_loop ::
  "('r, 'p, 'a) env \<Rightarrow> (('a \<times> 'a) img \<times> ('a \<times> 'a) img \<times> ('a \<times> 'a) img) list
     \<Rightarrow> npfloat \<times> npfloat \<Rightarrow> npfloat \<times> npfloat" where
  "psnr_loop E [] acc = acc"
| "psnr_loop E ((im_i, und_i, pred_i) # zs) (base_psnr, test_psnr) =
     psnr_loop E zs (np_add base_psnr (complex_psnr E im_i und_i),
                     np_add test_psnr (complex_psnr E im_i pred_i))"

text \<open>\<open>xs[0]\<close>, which raises \<open>IndexError\<close> on an empty array.\<close>

definition first :: "'b list \<Rightarrow> error + 'b" where
  "first xs = (case xs of [] \<Rightarrow> Inl IndexError | x # _ \<Rightarrow> Inr x)"

text \<open>
  The entry that the test pass appends to \<open>vis\<close>:
  \<^verbatim>\<open>
  vis.append((im[0],
              from_lasagne_format(pred)[0],
              from_lasagne_format(im_und)[0],
              from_lasagne_format(mask, mask=True)[0]))
  \<close>
\<close>

definition vis_entry ::
  "('a \<times> 'a) img list \<Rightarrow> 'a tensor \<Rightarrow> 'a tensor \<Rightarrow> bool tensor
     \<Rightarrow> error + (('a \<times> 'a) img \<times> ('a \<times> 'a) img \<times> ('a \<times> 'a) img \<times> bool img)" where
  "vis_entry im pred im_und msk =
     (case first im of Inl e \<Rightarrow> Inl e | Inr im0 \<Rightarrow>
      case from_lasagne_format pred of Inl e \<Rightarrow> Inl e | Inr preds \<Rightarrow>
      case first preds of Inl e \<Rightarrow> Inl e | Inr pred0 \<Rightarrow>
      case from_lasagne_format im_und of Inl e \<Rightarrow> Inl e | Inr unds \<Rightarrow>
      case first unds of Inl e \<Rightarrow> Inl e | Inr und0 \<Rightarrow>
      case from_lasagne_format_mask msk of Inl e \<Rightarrow> Inl e | Inr masks \<Rightarrow>
      case first masks of Inl e \<Rightarrow> Inl e | Inr mask0 \<Rightarrow>
        Inr (im0, pred0, und0, mask0))"

text \<open>
  The test pass:
  \<^verbatim>\<open>
  vis = []
  test_err = 0
  base_psnr = 0
  test_psnr = 0
  test_batches = 0
  for im in iterate_minibatch(test, batch_size, shuffle=False):
      im_und, k_und, mask, im_gnd = prep_input(im, gauss_ivar=gauss_ivar)
      err, pred = val_fn(im_und, mask, k_und, im_gnd)
      test_err += err
      for im_i, und_i, pred_i in zip(...): ...
      test_batches += 1
      if save_fig and test_batches % save_every == 0:
          vis.append(...)
  \<close>
\<close>

type_synonym 'a vis_entry =
  "('a \<times> 'a) img \<times> ('a \<times> 'a) img \<times> ('a \<times> 'a) img \<times> bool img"

type_synonym ('r, 'a) test_state =
  "'r \<times> real \<times> npfloat \<times> npfloat \<times> int \<times> 'a vis_entry list"

fun test_loop ::
  "('r, 'p, 'a) env \<Rightarrow> real \<Rightarrow> bool \<Rightarrow> 'p \<Rightarrow> ('a \<times> 'a) img list list \<Rightarrow> ('r, 'a) test_state
     \<Rightarrow> error + ('r, 'a) test_state" where
  "test_loop E g sf p [] s = Inr s"
| "test_loop E g sf p (im # ims) (r, test_err, base_psnr, test_psnr, test_batches, vis) =
     (case prep_input E im g r of ((im_und, k_und, msk, im_gnd), r') \<Rightarrow>
      case val_fn E p im_und msk k_und im_gnd of (err, pred) \<Rightarrow>
      case from_lasagne_format im_und of Inl e \<Rightarrow> Inl e | Inr unds \<Rightarrow>
      case from_lasagne_format pred of Inl e \<Rightarrow> Inl e | Inr preds \<Rightarrow>
      case psnr_loop E (zip im (zip unds preds)) (base_psnr, test_psnr) of
        (base_psnr', test_psnr') \<Rightarrow>
        (if sf \<and> (test_batches + 1) mod save_every = 0
         then (case vis_entry im pred im_und msk of
                 Inl e \<Rightarrow> Inl e
               | Inr v \<Rightarrow> test_loop E g sf p ims
                            (r', test_err + err, base_psnr', test_psnr', test_batches + 1,
                             vis @ [v]))
         else test_loop E g sf p ims
                (r', test_err + err, base_psnr', test_psnr', test_batches + 1, vis)))"

text \<open>
  The per-image PSNR terms of the test pass: for every iteration of the inner loop, in
  the order of the iterations, the value added to \<open>base_psnr\<close> and the value added to
  \<open>test_psnr\<close>. The test pass does not keep them; the list is what its two sums are
  made of.
\<close>

fun test_terms ::
  "('r, 'p, 'a) env \<Rightarrow> real \<Rightarrow> 'p \<Rightarrow> ('a \<times> 'a) img list list \<Rightarrow> 'r
     \<Rightarrow> (npfloat \<times> npfloat) list" where
  "test_terms E g p [] r = []"
| "test_terms E g p (im # ims) r =
     (case prep_input E im g r of ((im_und, k_und, msk, im_gnd), r') \<Rightarrow>
      case val_fn E p im_und msk k_und im_gnd of (err, pred) \<Rightarrow>
      case from_lasagne_format im_und of Inl e \<Rightarrow> [] | Inr unds \<Rightarrow>
      case from_lasagne_format pred of Inl e \<Rightarrow> [] | Inr preds \<Rightarrow>
        map (\<lambda>(im_i, und_i, pred_i). (complex_psnr E im_i und_i, complex_psnr E im_i pred_i))
            (zip im (zip unds preds))
        @ test_terms E g p ims r')"

text \<open>
  Python's true division (\<open>from __future__ import division\<close>) of an accumulated loss.
  Each accumulator starts as the integer \<open>0\<close> and each counter is an integer, so a
  pass over no batches divides the integer \<open>0\<close> by the integer \<open>0\<close>, which raises
  \<open>ZeroDivisionError\<close>. The two PSNR sums are divided by \<open>np_truediv\<close>.
\<close>

definition py_truediv :: "real \<Rightarrow> int \<Rightarrow> error + real" where
  "py_truediv a b = (if b = 0 then Inl ZeroDivisionError else Inr (a / real_of_int b))"

text \<open>
  The summary of an epoch:
  \<^verbatim>\<open>
  print(" training loss:\t\t{:.6f}".format(train_err / max(1, train_batches)))
  print(" validation loss:\t{:.6f}".format(validate_err / validate_batches))
  print(" test loss:\t\t{:.6f}".format(test_err / test_batches))
  print(" base PSNR:\t\t{:.6f}".format(base_psnr / (test_batches*batch_size)))
  print(" test PSNR:\t\t{:.6f}".format(test_psnr / (test_batches*batch_size)))
  \<close>
  The report holds the five numbers printed; an exception in one of the divisions ends
  the run.
\<close>

record report =
  training_loss :: real
  validation_loss :: real
  test_loss :: real
  base_PSNR :: npfloat
  test_PSNR :: npfloat

definition epoch_summary ::
  "int \<Rightarrow> real \<Rightarrow> int \<Rightarrow> real \<Rightarrow> int \<Rightarrow> real \<Rightarrow> npfloat \<Rightarrow> npfloat \<Rightarrow> int
     \<Rightarrow> error + report" where
  "epoch_summary bs train_err train_batches validate_err validate_batches
                 test_err base_psnr test_psnr test_batches =
     (case py_truediv train_err (max 1 train_batches) of Inl e \<Rightarrow> Inl e | Inr trl \<Rightarrow>
      case py_truediv validate_err validate_batches of Inl e \<Rightarrow> Inl e | Inr vl \<Rightarrow>
      case py_truediv test_err test_batches of Inl e \<Rightarrow> Inl e | Inr tel \<Rightarrow>
      case np_truediv base_psnr (test_batches * bs) of Inl e \<Rightarrow> Inl e | Inr bp \<Rightarrow>
      case np_truediv test_psnr (test_batches * bs) of Inl e \<Rightarrow> Inl e | Inr tp \<Rightarrow>
        Inr \<lparr>training_loss = trl, validation_loss = vl, test_loss = tel,
             base_PSNR = bp, test_PSNR = tp\<rparr>)"

text \<open>
  The checkpoint block that ends each epoch:
  \<^verbatim>\<open>
  # save the model
  if save_fig and (epoch % save_every == 0 or epoch in [1, 2, num_epoch-1]):
      i = 0
      for im_i, pred_i, und_i, mask_i in vis:
          plt.imsave(join(save_dir, 'im{0}.png'.format(i)),
                     abs(np.concatenate([und_i, pred_i, im_i, im_i - pred_i], 1)), cmap='gray')
          plt.imsave(join(save_dir, 'mask{0}.png'.format(i)), mask_i, cmap='gray')
          i += 1
      name = '%s_epoch_%d.npz' % (model_name, epoch)
      np.savez(join(save_dir, name),
               *lasagne.layers.get_all_param_values(net))
  \<close>
  The artifact store is the list of the files written, oldest first: \<open>Im_png i\<close> is
  \<open>im<i>.png\<close>, with the three images its panels are computed from, \<open>Mask_png i\<close> is
  \<open>mask<i>.png\<close> and \<open>Params_npz epoch\<close> is \<open>d2_c2_epoch_<epoch>.npz\<close>, with the
  parameter values of the network.
\<close>

datatype ('a, 'p) artifact =
    Im_png nat "('a \<times> 'a) img" "('a \<times> 'a) img" "('a \<times> 'a) img"
  | Mask_png nat "bool img"
  | Params_npz int 'p

fun save_images :: "nat \<Rightarrow> 'a vis_entry list \<Rightarrow> ('a, 'p) artifact list" where
  "save_images i [] = []"
| "save_images i ((im_i, pred_i, und_i, mask_i) # vis) =
     Im_png i und_i pred_i im_i # Mask_png i mask_i # save_images (i + 1) vis"

definition checkpoint ::
  "bool \<Rightarrow> int \<Rightarrow> int \<Rightarrow> 'a vis_entry list \<Rightarrow> 'p \<Rightarrow> ('a, 'p) artifact list
     \<Rightarrow> ('a, 'p) artifact list" where
  "checkpoint sf epoch n_epoch vis p store =
     (if sf \<and> (epoch mod save_every = 0 \<or> epoch \<in> set [1, 2, n_epoch - 1])
      then store @ save_images 0 vis @ [Params_npz epoch p]
      else store)"

text \<open>
  One iteration of \<open>for epoch in xrange(num_epoch)\<close>: the three passes, the summary
  and the checkpoint block. The state between epochs is the random state, the
  parameters of the network and the artifact store.
\<close>

definition epoch ::
  "('r, 'p, 'a) env \<Rightarrow> config
     \<Rightarrow> ('a \<times> 'a) img list \<Rightarrow> ('a \<times> 'a) img list \<Rightarrow> ('a \<times> 'a) img list
     \<Rightarrow> int \<Rightarrow> 'r \<times> 'p \<times> ('a, 'p) artifact list
     \<Rightarrow> error + (('r \<times> 'p \<times> ('a, 'p) artifact list) \<times> report)" where
  "epoch E cfg train validate test ep w =
     (case w of (r, p, store) \<Rightarrow>
      case iterate_minibatch (np_random_permutation E) train (batch_size cfg) True r of
        Inl e \<Rightarrow> Inl e
      | Inr (train_ims, r1) \<Rightarrow>
      case train_loop E (gauss_ivar cfg) train_ims (r1, p, 0, 0) of
        (r2, p', train_err, train_batches) \<Rightarrow>
      case iterate_minibatch (np_random_permutation E) validate (batch_size cfg) False r2 of
        Inl e \<Rightarrow> Inl e
      | Inr (validate_ims, r3) \<Rightarrow>
      case validate_loop E (gauss_ivar cfg) p' validate_ims (r3, 0, 0) of
        (r4, validate_err, validate_batches) \<Rightarrow>
      case iterate_minibatch (np_random_permutation E) test (batch_size cfg) False r4 of
        Inl e \<Rightarrow> Inl e
      | Inr (test_ims, r5) \<Rightarrow>
      case test_loop E (gauss_ivar cfg) (save_fig cfg) p' test_ims
             (r5, 0, Finite 0, Finite 0, 0, []) of
        Inl e \<Rightarrow> Inl e
      | Inr (r6, test_err, base_psnr, test_psnr, test_batches, vis) \<Rightarrow>
      case epoch_summary (batch_size cfg) train_err train_batches validate_err
             validate_batches test_err base_psnr test_psnr test_batches of
        Inl e \<Rightarrow> Inl e
      | Inr rep \<Rightarrow>
          Inr ((r6, p', checkpoint (save_fig cfg) ep (num_epoch cfg) vis p' store), rep))"

text \<open>
  The same iteration over given batches: what an epoch does once the three generators
  have produced \<open>train_ims\<close>, \<open>validate_ims\<close> and \<open>test_ims\<close>.
\<close>

definition epoch_passes ::
  "('r, 'p, 'a) env \<Rightarrow> config
     \<Rightarrow> ('a \<times> 'a) img list list \<Rightarrow> ('a \<times> 'a) img list list \<Rightarrow> ('a \<times> 'a) img list list
     \<Rightarrow> int \<Rightarrow> 'r \<times> 'p \<times> ('a, 'p) artifact list
     \<Rightarrow> error + (('r \<times> 'p \<times> ('a, 'p) artifact list) \<times> report)" where
  "epoch_passes E cfg train_ims validate_ims test_ims ep w =
     (case w of (r1, p, store) \<Rightarrow>
      case train_loop E (gauss_ivar cfg) train_ims (r1, p, 0, 0) of
        (r2, p', train_err, train_batches) \<Rightarrow>
      case validate_loop E (gauss_ivar cfg) p' validate_ims (r2, 0, 0) of
        (r4, validate_err, validate_batches) \<Rightarrow>
      case test_loop E (gauss_ivar cfg) (save_fig cfg) p' test_ims
             (r4, 0, Finite 0, Finite 0, 0, []) of
        Inl e \<Rightarrow> Inl e
      | Inr (r6, test_err, base_psnr, test_psnr, test_batches, vis) \<Rightarrow>
      case epoch_summary (batch_size cfg) train_err train_batches validate_err
             validate_batches test_err base_psnr test_psnr test_batches of
        Inl e \<Rightarrow> Inl e
      | Inr rep \<Rightarrow>
          Inr ((r6, p', checkpoint (save_fig cfg) ep (num_epoch cfg) vis p' store), rep))"

text \<open>
  \<open>for epoch in xrange(num_epoch)\<close>: the epochs \<open>ep, ep + 1, \<dots>\<close> of the list, with the
  reports of the epochs that ended. An exception ends the run.
\<close>

fun run_epochs ::
  "('r, 'p, 'a) env \<Rightarrow> config
     \<Rightarrow> ('a \<times> 'a) img list \<Rightarrow> ('a \<times> 'a) img list \<Rightarrow> ('a \<times> 'a) img list
     \<Rightarrow> int list \<Rightarrow> 'r \<times> 'p \<times> ('a, 'p) artifact list
     \<Rightarrow> error + (('r \<times> 'p \<times> ('a, 'p) artifact list) \<times> report list)" where
  "run_epochs E cfg train validate test [] w = Inr (w, [])"
| "run_epochs E cfg train validate test (ep # eps) w =
     (case epoch E cfg train validate test ep w of
        Inl e \<Rightarrow> Inl e
      | Inr (w', rep) \<Rightarrow>
          (case run_epochs E cfg train validate test eps w' of
             Inl e \<Rightarrow> Inl e
           | Inr (w'', reps) \<Rightarrow> Inr (w'', rep # reps)))"

definition run ::
  "('r, 'p, 'a) env \<Rightarrow> config
     \<Rightarrow> ('a \<times> 'a) img list \<Rightarrow> ('a \<times> 'a) img list \<Rightarrow> ('a \<times> 'a) img list
     \<Rightarrow> 'r \<times> 'p \<times> ('a, 'p) artifact list
     \<Rightarrow> error + (('r \<times> 'p \<times> ('a, 'p) artifact list) \<times> report list)" where
  "run E cfg train validate test w =
     run_epochs E cfg train validate test (map int [0..<nat (num_epoch cfg)]) w"

subsection \<open>A concrete environment\<close>

text \<open>
  An environment to run the model on: the random state is a counter, the draw of a
  permutation reverses the indices, the lines drawn alternate, the undersampling
  simulator returns its input twice, and the network and the metric return constants.
\<close>

definition env0 :: "(nat, nat, real) env" where
  "env0 =
     \<lparr>np_random_permutation = (\<lambda>r n. (rev [0..<n], r + 1)),
      line_draw = (\<lambda>r ivar hf n. (\<lambda>b j. even (r + b + j), r + 1)),
      undersample = (\<lambda>im m. (im, im)),
      train_fn = (\<lambda>p im_und m k_und im_gnd. (1, p + 1)),
      val_fn = (\<lambda>p im_und m k_und im_gnd. (1 / 2, im_und)),
      complex_psnr = (\<lambda>x y. Finite 30)\<rparr>"

subsection \<open>Metric evaluator\<close>

text \<open>
  Modelled from the spec: \<open>complex_psnr\<close> of \<open>utils/metric.py\<close> with \<open>peak='max'\<close>, which
  \<open>main_2d.py\<close> imports and which is not among the sources. The spec, section 4.4: the
  PSNR is \<open>10 * log10(peak^2 / mean_squared_error)\<close>, the mean squared error is the
  squared magnitude of the difference of the two complex images averaged over all
  pixels, and the peak is the maximum magnitude of the ground truth, the first
  argument at the two calls of \<open>main_2d.py\<close>; if the two images are identical the
  result is plus infinity. With a mean squared error of 0 the quotient is that of a
  division by zero in floating point, plus infinity for a nonzero peak and
  not-a-number for a zero peak; with a zero peak and a nonzero error the logarithm of
  0 is minus infinity.
\<close>

definition complex_psnr_max :: "(real \<times> real) img \<Rightarrow> (real \<times> real) img \<Rightarrow> npfloat" where
  "complex_psnr_max x y =
     (let d = map (\<lambda>((a, b), (c, e)). (a - c)\<^sup>2 + (b - e)\<^sup>2) (zip (concat x) (concat y));
          mse = sum_list d / real (length d);
          peak = Max (set (map (\<lambda>(a, b). sqrt (a\<^sup>2 + b\<^sup>2)) (concat x)))
      in if mse = 0 then (if peak = 0 then NaN else PInf)
         else if peak = 0 then NInf
         else Finite (10 * log 10 (peak\<^sup>2 / mse)))"

text \<open>
  A second environment: the undersampled image is zero everywhere, as under a mask
  that keeps no line of a zero-mean image, the network answers \<open>3 + 3i\<close> at every
  pixel, and the metric is the PSNR above.
\<close>

definition env1 :: "(nat, nat, real) env" where
  "env1 =
     env0\<lparr>undersample := (\<lambda>im m. (map (map (map (\<lambda>c. (0, 0)))) im,
                                   map (map (map (\<lambda>c. (0, 0)))) im)),
          val_fn := (\<lambda>p im_und m k_und im_gnd. (1 / 2, map (map (map (map (\<lambda>v. 3)))) im_und)),
          complex_psnr := complex_psnr_max\<rparr>"

text \<open>
  A third environment: the undersampled image and the answer of the network are the
  image itself, as in the first environment, and the metric is the PSNR above, which
  is infinite on identical images.
\<close>

definition env2 :: "(nat, nat, real) env" where
  "env2 = env0\<lparr>complex_psnr := complex_psnr_max\<rparr>"

text \<open>A reading of the strings that the command line passes by default, and of \<open>0\<close>.\<close>

definition float0 :: "string \<Rightarrow> real option" where
  "float0 s =
     (if s = ''0'' then Some 0
      else if s = ''0.001'' then Some (1 / 1000)
      else if s = ''1e-6'' then Some (1 / 1000000)
      else None)"

section \<open>Properties\<close>

subsection \<open>Minibatches\<close>

lemma ceil_div_step:
  assumes "0 < (B::nat)" "i < n"
  shows "(n - i + B - 1) div B = Suc ((n - (i + B) + B - 1) div B)"
proof (cases "B \<le> n - i")
  case True
  then have "n - i + B - 1 = (n - (i + B) + B - 1) + B"
    using assms by arith
  then show ?thesis using assms by (simp only: div_add_self2)
next
  case False
  then have a: "n - (i + B) + B - 1 = B - 1" by arith
  have b: "(B - 1) div B = 0" using assms by simp
  obtain d where d: "n - i + B - 1 = d + B" "d < B" 
    using False assms by (intro that[of "n - i - 1"]) arith+
  have "(d + B) div B = Suc (d div B)" using assms by (simp only: div_add_self2)
  then have "(d + B) div B = 1" using d(2) by simp
  then show ?thesis unfolding a b d(1) by simp
qed


lemma xrange_from_length:
  "0 < B \<Longrightarrow> length (xrange_from i n B) = (n - i + B - 1) div B"
proof (induction i n B rule: xrange_from.induct)
  case (1 i n step)
  show ?case
  proof (cases "n \<le> i")
    case True
    with 1(2) show ?thesis by (simp add: xrange_from.simps[of i n step])
  next
    case False
    then have "length (xrange_from (i + step) n step) = (n - (i + step) + step - 1) div step"
      using 1 by simp
    moreover have "(n - i + step - 1) div step = Suc ((n - (i + step) + step - 1) div step)"
      using ceil_div_step[of step i n] False 1(2) by simp
    ultimately show ?thesis using False 1(2) by (simp add: xrange_from.simps[of i n step])
  qed
qed

lemma xrange_from_nth:
  "0 < B \<Longrightarrow> k < length (xrange_from i n B) \<Longrightarrow> xrange_from i n B ! k = i + k * B"
proof (induction i n B arbitrary: k rule: xrange_from.induct)
  case (1 i n step)
  then show ?case
    by (cases k) (auto simp: xrange_from.simps[of i n step] split: if_splits)
qed

lemma xrange_from_concat:
  "0 < B \<Longrightarrow> concat (map (\<lambda>i. take B (drop i xs)) (xrange_from i (length xs) B)) = drop i xs"
proof (induction i "length xs" B rule: xrange_from.induct)
  case (1 i step)
  show ?case
  proof (cases "length xs \<le> i")
    case True
    then show ?thesis by (simp add: xrange_from.simps[of i "length xs" step])
  next
    case False
    then have "concat (map (\<lambda>i. take step (drop i xs)) (xrange_from (i + step) (length xs) step)) = drop (i + step) xs"
      using 1 by simp
    then show ?thesis using False 1(2)
      by (simp add: xrange_from.simps[of i "length xs" step] add.commute[of i step] flip: drop_drop)
  qed
qed



lemma ceil_div_exact:
  assumes "0 < (B::nat)" "N mod B = 0"
  shows "(N + B - 1) div B = N div B"
proof -
  define q where "q = N div B"
  have q: "N = q * B" using assms(2) div_mult_mod_eq[of N B] by (simp add: q_def)
  have "N + B - 1 = q * B + (B - 1)" using q assms(1) by simp
  then have "(N + B - 1) div B = q + (B - 1) div B"
    using assms(1) by (simp only: div_mult_self3)
  then show ?thesis using q assms(1) by simp
qed

lemma ceil_mod:
  assumes "0 < (B::nat)" "N mod B \<noteq> 0"
  shows "(N + B - 1) div B = Suc (N div B)"
proof -
  have N: "N = (N div B) * B + N mod B" by simp
  have lt: "N mod B < B" using assms(1) by simp
  have "N + B - 1 = (N div B) * B + N mod B + B - 1" using N by simp
  also have "\<dots> = Suc (N div B) * B + (N mod B - 1)" using assms(2) by simp
  finally have "(N + B - 1) div B = (Suc (N div B) * B + (N mod B - 1)) div B" by simp
  also have "\<dots> = Suc (N div B) + (N mod B - 1) div B"
    using assms(1) by (simp only: div_mult_self3)
  also have "(N mod B - 1) div B = 0" using lt by simp
  finally show ?thesis by simp
qed

lemma ceiling_nat_div:
  assumes "0 < (B::nat)"
  shows "int ((N + B - 1) div B) = \<lceil>real N / real B\<rceil>"
proof (cases "N mod B = 0")
  case True
  define q where "q = N div B"
  have q: "N = q * B" using True div_mult_mod_eq[of N B] by (simp add: q_def)
  have "real N / real B = real q" using q assms by simp
  then have "\<lceil>real N / real B\<rceil> = int q" by simp
  moreover have "(N + B - 1) div B = q" using ceil_div_exact[OF assms True] q assms by simp
  ultimately show ?thesis by simp
next
  case False
  have N: "real N = real (N div B) * real B + real (N mod B)"
    by (metis of_nat_add of_nat_mult div_mult_mod_eq)
  have B: "0 < real B" using assms by simp
  have "real N / real B = real (N div B) + real (N mod B) / real B"
    using B by (subst N) (simp add: field_simps)
  moreover have "0 < real (N mod B) / real B" using False B by simp
  moreover have "real (N mod B) / real B < 1" using assms by simp
  ultimately have "real_of_int (int (N div B)) < real N / real B"
    "real N / real B \<le> real_of_int (int (N div B)) + 1" by simp_all
  then have "\<lceil>real N / real B\<rceil> = int (N div B) + 1" by (intro ceiling_unique) simp_all
  then show ?thesis using ceil_mod[OF assms False] by simp
qed

lemma ceil_mult_less:
  assumes "0 < (B::nat)" "Suc j < (N + B - 1) div B"
  shows "j * B + B \<le> N"
proof -
  have "Suc (Suc j) * B \<le> ((N + B - 1) div B) * B"
    using assms(2) by (intro mult_le_mono1) simp
  also have "\<dots> \<le> N + B - 1" by (rule div_times_less_eq_dividend)
  finally show ?thesis using assms(1) by simp
qed


lemma batches_of_length:
  "0 < B \<Longrightarrow> length (batches_of xs B) = (length xs + B - 1) div B"
  by (simp add: batches_of_def xrange_from_length)

lemma batches_of_concat: "0 < B \<Longrightarrow> concat (batches_of xs B) = xs"
  using xrange_from_concat[of B xs 0] by (simp add: batches_of_def)

lemma batches_of_nth:
  assumes "0 < B" "j < length (batches_of xs B)"
  shows "batches_of xs B ! j = take B (drop (j * B) xs)"
  using assms xrange_from_nth[of B j 0 "length xs"] by (simp add: batches_of_def)

lemma batches_of_full:
  assumes "0 < B" "Suc j < length (batches_of xs B)"
  shows "length (batches_of xs B ! j) = B"
proof -
  have "j * B + B \<le> length xs"
    using assms ceil_mult_less[of B j "length xs"] by (simp add: batches_of_length)
  then show ?thesis using assms by (simp add: batches_of_nth)
qed

lemma batches_of_last:
  assumes "0 < B" "length xs mod B \<noteq> 0"
  shows "length (last (batches_of xs B)) = length xs mod B"
proof -
  have len: "length (batches_of xs B) = Suc (length xs div B)"
    using assms ceil_mod[of B "length xs"] by (simp add: batches_of_length)
  then have "last (batches_of xs B) = batches_of xs B ! (length xs div B)"
    by (metis diff_Suc_1 last_conv_nth length_0_conv nat.distinct(1))
  also have "\<dots> = take B (drop (length xs div B * B) xs)"
    using assms len by (simp add: batches_of_nth)
  finally have "length (last (batches_of xs B)) = min (length xs - length xs div B * B) B"
    by simp
  moreover have "length xs - length xs div B * B = length xs mod B"
    by (simp add: minus_div_mult_eq_mod)
  moreover have "length xs mod B < B" using assms by simp
  ultimately show ?thesis by simp
qed

lemma batches_of_sum: "0 < B \<Longrightarrow> sum_list (map length (batches_of xs B)) = length xs"
  using batches_of_concat[of B xs] by (metis length_concat)


lemma permutation_draw_length: "permutation_draw p n \<Longrightarrow> length p = n"
  unfolding permutation_draw_def by (metis size_mset length_upt diff_zero)

lemma shuffled_length: "permutation_draw p (length data) \<Longrightarrow> length (shuffled p data) = length data"
  by (simp add: shuffled_def permutation_draw_length)

lemma shuffled_mset: "permutation_draw p (length data) \<Longrightarrow> mset (shuffled p data) = mset data"
proof -
  assume "permutation_draw p (length data)"
  then have "mset (map (\<lambda>i. data ! i) p) = mset (map (\<lambda>i. data ! i) [0..<length data])"
    unfolding permutation_draw_def by (metis mset_map)
  then show ?thesis by (simp add: shuffled_def map_nth)
qed

lemma iterate_minibatch_in_order:
  assumes "1 \<le> B"
  shows "iterate_minibatch permutation data B False r = Inr (batches_of data (nat B), r)"
  using assms by (simp add: iterate_minibatch_def xrange_def batches_of_def)

lemma iterate_minibatch_shuffled:
  assumes "1 \<le> B" "permutation_draw (fst (permutation r (length data))) (length data)"
  shows "iterate_minibatch permutation data B True r =
         Inr (batches_of (shuffled (fst (permutation r (length data))) data) (nat B),
              snd (permutation r (length data)))"
  using assms shuffled_length[OF assms(2)]
  by (simp add: iterate_minibatch_def xrange_def batches_of_def Let_def case_prod_beta)

lemma train_loop_batches:
  "\<exists>r' p' e. train_loop E g ims (r, p, err, n) = (r', p', e, n + int (length ims))"
proof (induction ims arbitrary: r p err n)
  case Nil
  then show ?case by simp
next
  case (Cons im ims)
  obtain im_und k_und msk im_gnd r1 where a: "prep_input E im g r = ((im_und, k_und, msk, im_gnd), r1)"
    by (metis prod.exhaust)
  obtain e1 p1 where b: "train_fn E p im_und msk k_und im_gnd = (e1, p1)" by (metis prod.exhaust)
  from Cons[of r1 p1 "err + e1" "n + 1"] show ?case by (auto simp: a b)
qed

lemma train_loop_fold: "train_loop E g ims s = fold (train_step E g) ims s"
proof (induction ims arbitrary: s)
  case Nil
  then show ?case by simp
next
  case (Cons im ims)
  obtain r p err n where s: "s = (r, p, err, n)" by (metis prod.exhaust)
  show ?case unfolding s by (simp add: train_step_def Cons.IH split: prod.splits)
qed

subsection \<open>Format adapter\<close>

lemma r2c_channels: "r2c [map (map fst) im, map (map snd) im] = Inr im"
proof -
  have "map (\<lambda>(a, b). zip a b) (zip (map (map fst) im) (map (map snd) im)) = im"
    by (induction im) (auto simp: zip_map_fst_snd)
  then show ?thesis by simp
qed

text \<open>
  Claim C5. For every batch \<open>x\<close> of complex images, of any shape and any batch size,
  the inverse conversion of the forward conversion of \<open>x\<close> is \<open>x\<close> itself, and
  likewise for every batch \<open>m\<close> of masks. The scalars are of an arbitrary type: the two
  conversions move them and compute nothing, so no precision is lost.
\<close>

theorem lasagne_format_roundtrip:
  "from_lasagne_format (to_lasagne_format x) = Inr x \<and>
   from_lasagne_format_mask (to_lasagne_format_mask m) = Inr m"
proof
  show "from_lasagne_format (to_lasagne_format x) = Inr x"
    by (induction x) (simp_all add: to_lasagne_format_def r2c_channels del: r2c.simps)
  show "from_lasagne_format_mask (to_lasagne_format_mask m) = Inr m"
    by (induction m) (simp_all add: to_lasagne_format_mask_def)
qed

subsection \<open>Claim C3: the batches of \<open>iterate_minibatch\<close>\<close>

text \<open>
  Claim C3. For a dataset of \<open>N\<close> entries and a batch size \<open>B \<ge> 1\<close>,
  \<open>iterate_minibatch\<close> returns and yields exactly \<open>\<lceil>N / B\<rceil>\<close> batches; every batch but
  the last has \<open>B\<close> entries, the last has \<open>N mod B\<close> entries when \<open>N mod B\<close> is not
  zero, and the sizes sum to \<open>N\<close>. The training loop run over these batches ends with
  \<open>train_batches = \<lceil>N / B\<rceil>\<close>, and what it returns is the body of the loop, one
  call of \<open>prep_input\<close> and one call of \<open>train_fn\<close>, applied to each of these batches
  in turn. For \<open>N = 20\<close> and \<open>B = 10\<close> it executes exactly 2 minibatches: in the
  concrete environment, where \<open>train_fn\<close> counts its calls in the parameters and
  returns the loss 1, and every random draw advances the random state by one, the
  loop ends with the random state 3 (one permutation and two masks drawn), the
  parameters 2, the summed loss 2 and \<open>train_batches = 2\<close>, as the witness shows. When
  the data is shuffled, the draw of \<open>np.random.permutation\<close> is taken to be a
  permutation of the indices.
\<close>

theorem iterate_minibatch_batches:
  assumes "1 \<le> B"
    and "shuffle \<longrightarrow>
           permutation_draw (fst (np_random_permutation E r (length data))) (length data)"
  shows "\<exists>bs r'. iterate_minibatch (np_random_permutation E) data B shuffle r = Inr (bs, r') \<and>
           int (length bs) = \<lceil>real (length data) / real_of_int B\<rceil> \<and>
           (\<forall>j. Suc j < length bs \<longrightarrow> length (bs ! j) = nat B) \<and>
           (length data mod nat B \<noteq> 0 \<longrightarrow> length (last bs) = length data mod nat B) \<and>
           sum_list (map length bs) = length data \<and>
           (\<exists>r'' p' err. train_loop E g bs (r', p, 0, 0) =
                            (r'', p', err, \<lceil>real (length data) / real_of_int B\<rceil>)) \<and>
           train_loop E g bs (r', p, 0, 0) = fold (train_step E g) bs (r', p, 0, 0)"
proof -
  define data' where
    "data' = (if shuffle then shuffled (fst (np_random_permutation E r (length data))) data
              else data)"
  define r' where "r' = (if shuffle then snd (np_random_permutation E r (length data)) else r)"
  define bs where "bs = batches_of data' (nat B)"
  have pos: "0 < nat B" using assms(1) by simp
  have len: "length data' = length data"
    using assms(2) by (simp add: data'_def shuffled_length)
  have run: "iterate_minibatch (np_random_permutation E) data B shuffle r = Inr (bs, r')"
    using assms
    by (cases shuffle)
      (simp_all add: iterate_minibatch_shuffled iterate_minibatch_in_order
        bs_def data'_def r'_def)
  have "\<lceil>real (length data) / real_of_int B\<rceil> = \<lceil>real (length data') / real (nat B)\<rceil>"
    using assms(1) len by simp
  also have "\<dots> = int ((length data' + nat B - 1) div nat B)"
    by (rule ceiling_nat_div[OF pos, symmetric])
  also have "\<dots> = int (length bs)"
    by (simp only: bs_def batches_of_length[OF pos])
  finally have count: "int (length bs) = \<lceil>real (length data) / real_of_int B\<rceil>"
    by (rule sym)
  have full: "\<forall>j. Suc j < length bs \<longrightarrow> length (bs ! j) = nat B"
    using batches_of_full[OF pos, of _ data'] by (simp only: bs_def) blast
  have lst: "length data mod nat B \<noteq> 0 \<longrightarrow> length (last bs) = length data mod nat B"
    using batches_of_last[OF pos, of data'] unfolding bs_def len by blast
  have total: "sum_list (map length bs) = length data"
    using batches_of_sum[OF pos, of data'] unfolding bs_def len .
  obtain r'' p' err where "train_loop E g bs (r', p, 0, 0) = (r'', p', err, 0 + int (length bs))"
    using train_loop_batches[of E g bs r' p 0 0] by blast
  then have "train_loop E g bs (r', p, 0, 0) =
             (r'', p', err, \<lceil>real (length data) / real_of_int B\<rceil>)"
    unfolding count[symmetric] by simp
  then have cnt: "\<exists>r'' p' err. train_loop E g bs (r', p, 0, 0) =
                            (r'', p', err, \<lceil>real (length data) / real_of_int B\<rceil>)"
    by blast
  have body: "train_loop E g bs (r', p, 0, 0) = fold (train_step E g) bs (r', p, 0, 0)"
    by (rule train_loop_fold)
  from run count full lst total cnt body show ?thesis by blast
qed

theorem iterate_minibatch_batches_witness:
  "(\<exists>bs r'. iterate_minibatch (np_random_permutation env0) (replicate 20 [[(1::real, 0::real)]]) 10 True 0
              = Inr (bs, r') \<and>
            bs = replicate 2 (replicate 10 [[(1, 0)]]) \<and> r' = 1 \<and>
            length bs = 2 \<and> sum_list (map length bs) = 20 \<and>
            train_loop env0 (3 / 2000) bs (r', 0, 0, 0) = (3, 2, 2, 2)) \<and>
   (\<exists>bs r'. iterate_minibatch (np_random_permutation env0) (replicate 5 [[(1::real, 0::real)]]) 2 False 0
              = Inr (bs, r') \<and>
            length bs = 3 \<and> length (last bs) = 1 \<and> sum_list (map length bs) = 5)"
proof -
  let ?data = "replicate 20 [[(1::real, 0::real)]]"
  have draw: "True \<longrightarrow>
      permutation_draw (fst (np_random_permutation env0 0 (length ?data))) (length ?data)"
    by (simp add: env0_def permutation_draw_def)
  have one: "(1::int) \<le> 10" by simp
  from iterate_minibatch_batches[OF one draw, of "3 / 2000" 0]
  obtain bs r' where
    a: "iterate_minibatch (np_random_permutation env0) ?data 10 True 0 = Inr (bs, r')" and
    b: "int (length bs) = \<lceil>real (length ?data) / real_of_int 10\<rceil>" and
    c: "sum_list (map length bs) = length ?data" and
    d: "\<exists>r'' p' err. train_loop env0 (3 / 2000) bs (r', 0, 0, 0) =
          (r'', p', err, \<lceil>real (length ?data) / real_of_int 10\<rceil>)" and
    f: "train_loop env0 (3 / 2000) bs (r', 0, 0, 0) =
          fold (train_step env0 (3 / 2000)) bs (r', 0, 0, 0)"
    by (elim exE conjE) blast
  have e: "\<lceil>real (length ?data) / real_of_int 10\<rceil> = 2" by simp
  have ev: "iterate_minibatch (np_random_permutation env0) ?data 10 True 0
              = Inr (replicate 2 (replicate 10 [[(1, 0)]]), 1)"
    by code_simp
  have bs: "bs = replicate 2 (replicate 10 [[(1, 0)]])" and r': "r' = 1"
    using a unfolding ev by simp_all
  have steps: "fold (train_step env0 (3 / 2000)) (replicate 2 (replicate 10 [[(1::real, 0::real)]]))
                 (1, 0, 0, 0) = (3, 2, 2, 2)"
    by code_simp
  have "length bs = 2" using b unfolding e by simp
  moreover have "sum_list (map length bs) = 20" using c by simp
  moreover have "train_loop env0 (3 / 2000) bs (r', 0, 0, 0) = (3, 2, 2, 2)"
    using f unfolding bs r' steps .
  ultimately have h1: "\<exists>bs r'. iterate_minibatch (np_random_permutation env0) ?data 10 True 0
              = Inr (bs, r') \<and>
            bs = replicate 2 (replicate 10 [[(1, 0)]]) \<and> r' = 1 \<and>
            length bs = 2 \<and> sum_list (map length bs) = 20 \<and>
            train_loop env0 (3 / 2000) bs (r', 0, 0, 0) = (3, 2, 2, 2)"
    using a bs r' by blast
  let ?data = "replicate 5 [[(1::real, 0::real)]]"
  have draw: "False \<longrightarrow>
      permutation_draw (fst (np_random_permutation env0 0 (length ?data))) (length ?data)"
    by simp
  have one: "(1::int) \<le> 2" by simp
  from iterate_minibatch_batches[OF one draw, of 0 0]
  obtain bs r' where
    a: "iterate_minibatch (np_random_permutation env0) ?data 2 False 0 = Inr (bs, r')" and
    b: "int (length bs) = \<lceil>real (length ?data) / real_of_int 2\<rceil>" and
    l: "length ?data mod nat 2 \<noteq> 0 \<longrightarrow> length (last bs) = length ?data mod nat 2" and
    c: "sum_list (map length bs) = length ?data"
    by (elim exE conjE) blast
  have e: "\<lceil>real (length ?data) / real_of_int 2\<rceil> = 3"
    by (simp add: ceiling_eq_iff)
  have "length bs = 3" using b unfolding e by simp
  moreover have "length (last bs) = 1" using l by simp
  moreover have "sum_list (map length bs) = 5" using c by simp
  ultimately have h2: "\<exists>bs r'. iterate_minibatch (np_random_permutation env0) ?data 2 False 0
              = Inr (bs, r') \<and>
            length bs = 3 \<and> length (last bs) = 1 \<and> sum_list (map length bs) = 5"
    using a by blast
  show ?thesis using h1 h2 by (rule conjI)
qed

subsection \<open>Claim C4: the order of the batches\<close>

text \<open>
  Claim C4. With \<open>shuffle=False\<close> the batches of \<open>iterate_minibatch\<close>, concatenated, are
  the input in its original order, and the random state is left as it was. With
  \<open>shuffle=True\<close> the concatenation is the input rearranged by the permutation drawn in
  the random state at the call, hence a permutation of the input, and the random state
  moves on, so that the next call draws anew. An epoch runs its training pass over the
  batches of the shuffled training split, with the permutation drawn in the random
  state the epoch starts in, and its validation and test passes over the batches of
  the two splits in their fixed order. The batch size is at least 1 and the draw of
  \<open>np.random.permutation\<close> is taken to be a permutation of the indices.
\<close>

theorem iterate_minibatch_order:
  assumes "1 \<le> batch_size cfg"
    and "permutation_draw (fst (np_random_permutation E r (length train))) (length train)"
  shows "(\<exists>bs. iterate_minibatch (np_random_permutation E) data (batch_size cfg) False r
                 = Inr (bs, r) \<and>
               concat bs = data) \<and>
         (\<exists>bs. iterate_minibatch (np_random_permutation E) train (batch_size cfg) True r
                 = Inr (bs, snd (np_random_permutation E r (length train))) \<and>
               concat bs = shuffled (fst (np_random_permutation E r (length train))) train \<and>
               mset (concat bs) = mset train) \<and>
         epoch E cfg train validate test ep (r, p, store) =
           epoch_passes E cfg
             (batches_of (shuffled (fst (np_random_permutation E r (length train))) train)
                (nat (batch_size cfg)))
             (batches_of validate (nat (batch_size cfg)))
             (batches_of test (nat (batch_size cfg)))
             ep (snd (np_random_permutation E r (length train)), p, store)"
proof (intro conjI)
  have pos: "0 < nat (batch_size cfg)" using assms(1) by simp
  show "\<exists>bs. iterate_minibatch (np_random_permutation E) data (batch_size cfg) False r
                 = Inr (bs, r) \<and> concat bs = data"
    unfolding iterate_minibatch_in_order[OF assms(1)]
    using batches_of_concat[OF pos, of data] by simp
  let ?p = "fst (np_random_permutation E r (length train))"
  show "\<exists>bs. iterate_minibatch (np_random_permutation E) train (batch_size cfg) True r
                 = Inr (bs, snd (np_random_permutation E r (length train))) \<and>
               concat bs = shuffled ?p train \<and> mset (concat bs) = mset train"
    unfolding iterate_minibatch_shuffled[where permutation="np_random_permutation E"
        and r=r and data=train, OF assms]
    using batches_of_concat[OF pos, of "shuffled ?p train"] shuffled_mset[OF assms(2)]
    by simp
  show "epoch E cfg train validate test ep (r, p, store) =
           epoch_passes E cfg
             (batches_of (shuffled ?p train) (nat (batch_size cfg)))
             (batches_of validate (nat (batch_size cfg)))
             (batches_of test (nat (batch_size cfg)))
             ep (snd (np_random_permutation E r (length train)), p, store)"
  proof -
    let ?B = "nat (batch_size cfg)"
    let ?r1 = "snd (np_random_permutation E r (length train))"
    obtain r2 p' te tb where
      T: "train_loop E (gauss_ivar cfg) (batches_of (shuffled ?p train) ?B) (?r1, p, 0, 0)
          = (r2, p', te, tb)"
      by (metis prod_cases4)
    obtain r4 ve vb where
      V: "validate_loop E (gauss_ivar cfg) p' (batches_of validate ?B) (r2, 0, 0) = (r4, ve, vb)"
      by (metis prod_cases3)
    show ?thesis
      unfolding epoch_def epoch_passes_def
      by (simp only: prod.case sum.case T V iterate_minibatch_shuffled[where permutation="np_random_permutation E" and r=r and data=train, OF assms]
            iterate_minibatch_in_order[OF assms(1)])
  qed
qed

theorem iterate_minibatch_order_witness:
  "(\<exists>bs. iterate_minibatch (np_random_permutation env0)
            [[[(1::real, 0::real)]], [[(2, 0)]], [[(3, 0)]]] 2 False 0 = Inr (bs, 0) \<and>
          concat bs = [[[(1, 0)]], [[(2, 0)]], [[(3, 0)]]]) \<and>
   (\<exists>bs. iterate_minibatch (np_random_permutation env0)
            [[[(1::real, 0::real)]], [[(2, 0)]], [[(3, 0)]]] 2 True 0 = Inr (bs, 1) \<and>
          concat bs = [[[(3, 0)]], [[(2, 0)]], [[(1, 0)]]] \<and>
          mset (concat bs) = mset [[[(1, 0)]], [[(2, 0)]], [[(3, 0)]]])"
proof -
  let ?cfg = "\<lparr>gauss_ivar = 3 / 2000, num_epoch = 10, batch_size = 2, save_fig = False\<rparr>"
  let ?train = "[[[(1::real, 0::real)]], [[(2, 0)]], [[(3, 0)]]]"
  have b: "1 \<le> batch_size ?cfg" by simp
  have d: "permutation_draw (fst (np_random_permutation env0 0 (length ?train))) (length ?train)"
    by (simp add: env0_def permutation_draw_def upt_rec)
  have s: "shuffled (fst (np_random_permutation env0 0 (length ?train))) ?train
           = [[[(3, 0)]], [[(2, 0)]], [[(1, 0)]]]"
    by (simp add: env0_def shuffled_def upt_rec)
  have n: "snd (np_random_permutation env0 0 (length ?train)) = 1"
    by (simp add: env0_def)
  have c: "batch_size ?cfg = 2" by simp
  note th = iterate_minibatch_order[OF b d, of ?train ?train ?train 0 0 "[]"]
  have h1: "\<exists>bs. iterate_minibatch (np_random_permutation env0) ?train 2 False 0 = Inr (bs, 0) \<and>
          concat bs = ?train"
    using th[THEN conjunct1] unfolding c .
  have h2: "\<exists>bs. iterate_minibatch (np_random_permutation env0) ?train 2 True 0 = Inr (bs, 1) \<and>
          concat bs = [[[(3, 0)]], [[(2, 0)]], [[(1, 0)]]] \<and>
          mset (concat bs) = mset ?train"
    using th[THEN conjunct2, THEN conjunct1] unfolding c s n .
  show ?thesis using h1 h2 by (rule conjI)
qed

subsection \<open>Claim C9: \<open>compile_fn\<close> and the weight \<open>l2\<close>\<close>

text \<open>
  Claim C9. \<open>compile_fn\<close> binds \<open>loss\<close> only under \<open>if l2:\<close>. Once the two
  hyper-parameters are read, a call with \<open>l2 = 0\<close> fails with the unbound-name error
  \<open>UnboundLocalError\<close> where \<open>update_rule\<close> reads \<open>loss\<close>; a call with \<open>l2 \<noteq> 0\<close> does
  not fail there and returns the pair of the training and the evaluation function,
  both built on \<open>loss_sq + l2_penalty * l2\<close>.
\<close>

theorem compile_fn_requires_l2:
  assumes "float (args_lr a) = Some base_lr" and "float (args_l2 a) = Some l2v"
  shows "(l2v = 0 \<longrightarrow> compile_fn float network a = Inl UnboundLocalError) \<and>
         (l2v \<noteq> 0 \<longrightarrow>
            compile_fn float network a =
              Inr (Theano_function
                     [Plus (Squared_error_mean_2 (Get_output network))
                        (Times (Regularize_network_params_l2 network) l2v)]
                     (Some (Adam (Plus (Squared_error_mean_2 (Get_output network))
                                    (Times (Regularize_network_params_l2 network) l2v))
                              network base_lr)),
                   Theano_function
                     [Plus (Squared_error_mean_2 (Get_output network))
                        (Times (Regularize_network_params_l2 network) l2v),
                      Get_output network]
                     None))"
  using assms by (simp add: compile_fn_def Let_def)

theorem compile_fn_requires_l2_witness:
  "compile_fn float0 (0::nat) \<lparr>args_lr = ''0.001'', args_l2 = ''0''\<rparr> = Inl UnboundLocalError \<and>
   (\<exists>train_fn val_fn.
      compile_fn float0 (0::nat) \<lparr>args_lr = ''0.001'', args_l2 = ''1e-6''\<rparr> = Inr (train_fn, val_fn))"
proof -
  have lr: "float0 (args_lr \<lparr>args_lr = ''0.001'', args_l2 = ''0''\<rparr>) = Some (1 / 1000)"
    by (simp add: float0_def)
  have z: "float0 (args_l2 \<lparr>args_lr = ''0.001'', args_l2 = ''0''\<rparr>) = Some 0"
    by (simp add: float0_def)
  have lr': "float0 (args_lr \<lparr>args_lr = ''0.001'', args_l2 = ''1e-6''\<rparr>) = Some (1 / 1000)"
    by (simp add: float0_def)
  have nz: "float0 (args_l2 \<lparr>args_lr = ''0.001'', args_l2 = ''1e-6''\<rparr>) = Some (1 / 1000000)"
    by (simp add: float0_def)
  have a: "compile_fn float0 (0::nat) \<lparr>args_lr = ''0.001'', args_l2 = ''0''\<rparr> = Inl UnboundLocalError"
    using compile_fn_requires_l2[OF lr z, of "0::nat"] by simp
  have b: "\<exists>train_fn val_fn.
      compile_fn float0 (0::nat) \<lparr>args_lr = ''0.001'', args_l2 = ''1e-6''\<rparr> = Inr (train_fn, val_fn)"
    using compile_fn_requires_l2[OF lr' nz, of "0::nat"] by simp
  show ?thesis using a b by (rule conjI)
qed

subsection \<open>Claim C1: the checkpoint block\<close>

text \<open>
  Claim C1 says that the parameters of the model are saved at every epoch that is a
  multiple of \<open>save_every\<close> or one of the epochs 1, 2 and \<open>num_epoch - 1\<close>, whether or
  not diagnostic images are saved. The block under the comment \<open># save the model\<close>
  runs only when \<open>save_fig\<close> is set: with \<open>save_fig = False\<close> the checkpoint leaves the
  artifact store as it is at every epoch, epoch 0 writes nothing and a run of six
  epochs ends with an empty store; with \<open>save_fig = True\<close> epoch 0 writes the parameter
  file.
\<close>

theorem checkpoint_gated_by_save_fig:
  "checkpoint False ep n vis p store = store \<and>
   epoch env0 \<lparr>gauss_ivar = 3 / 2000, num_epoch = 10, batch_size = 10, save_fig = False\<rparr>
     [[[(1, 0)]]] [[[(1, 0)]]] [[[(1, 0)]]] 0 (0, 0, []) =
     Inr ((4, 1, []),
          \<lparr>training_loss = 1, validation_loss = 1 / 2, test_loss = 1 / 2,
             base_PSNR = Finite 3, test_PSNR = Finite 3\<rparr>) \<and>
   epoch env0 \<lparr>gauss_ivar = 3 / 2000, num_epoch = 10, batch_size = 10, save_fig = True\<rparr>
     [[[(1, 0)]]] [[[(1, 0)]]] [[[(1, 0)]]] 0 (0, 0, []) =
     Inr ((4, 1, [Params_npz 0 1]),
          \<lparr>training_loss = 1, validation_loss = 1 / 2, test_loss = 1 / 2,
             base_PSNR = Finite 3, test_PSNR = Finite 3\<rparr>) \<and>
   (case run env0 \<lparr>gauss_ivar = 3 / 2000, num_epoch = 6, batch_size = 10, save_fig = False\<rparr>
           [[[(1, 0)]]] [[[(1, 0)]]] [[[(1, 0)]]] (0, 0, []) of
      Inl e \<Rightarrow> False
    | Inr ((r, p, store), reps) \<Rightarrow> store = [] \<and> length reps = 6)"
proof (intro conjI)
  show "case run env0 \<lparr>gauss_ivar = 3 / 2000, num_epoch = 6, batch_size = 10, save_fig = False\<rparr>
           [[[(1, 0)]]] [[[(1, 0)]]] [[[(1, 0)]]] (0, 0, []) of
      Inl e \<Rightarrow> False
    | Inr ((r, p, store), reps) \<Rightarrow> store = [] \<and> length reps = 6"
    by code_simp
  show "checkpoint False ep n vis p store = store"
    by (simp add: checkpoint_def)
  show "epoch env0 \<lparr>gauss_ivar = 3 / 2000, num_epoch = 10, batch_size = 10, save_fig = False\<rparr>
     [[[(1, 0)]]] [[[(1, 0)]]] [[[(1, 0)]]] 0 (0, 0, []) =
     Inr ((4, 1, []),
          \<lparr>training_loss = 1, validation_loss = 1 / 2, test_loss = 1 / 2,
             base_PSNR = Finite 3, test_PSNR = Finite 3\<rparr>)"
    by code_simp
  show "epoch env0 \<lparr>gauss_ivar = 3 / 2000, num_epoch = 10, batch_size = 10, save_fig = True\<rparr>
     [[[(1, 0)]]] [[[(1, 0)]]] [[[(1, 0)]]] 0 (0, 0, []) =
     Inr ((4, 1, [Params_npz 0 1]),
          \<lparr>training_loss = 1, validation_loss = 1 / 2, test_loss = 1 / 2,
             base_PSNR = Finite 3, test_PSNR = Finite 3\<rparr>)"
    by code_simp
qed

subsection \<open>Claim C2: the divisions of the epoch summary\<close>

text \<open>
  Claim C2 says that the mean of every split is computed with the divisor floored at
  1, so that a split of zero batches raises no division by zero. The summary floors
  the divisor of the training loss only (\<open>max(1, train_batches)\<close>): an epoch over an
  empty validation split, or over an empty test split, ends in \<open>ZeroDivisionError\<close>,
  while an epoch over an empty training split reports the training loss 0. The
  summary raises whenever \<open>validate_batches\<close> is 0, and whenever \<open>test_batches\<close> is 0.
\<close>

theorem zero_batch_split_division:
  "epoch env0 \<lparr>gauss_ivar = 3 / 2000, num_epoch = 10, batch_size = 10, save_fig = False\<rparr>
     [[[(1, 0)]]] [] [[[(1, 0)]]] 0 (0, 0, []) = Inl ZeroDivisionError \<and>
   epoch env0 \<lparr>gauss_ivar = 3 / 2000, num_epoch = 10, batch_size = 10, save_fig = False\<rparr>
     [[[(1, 0)]]] [[[(1, 0)]]] [] 0 (0, 0, []) = Inl ZeroDivisionError \<and>
   epoch env0 \<lparr>gauss_ivar = 3 / 2000, num_epoch = 10, batch_size = 10, save_fig = False\<rparr>
     [] [[[(1, 0)]]] [[[(1, 0)]]] 0 (0, 0, []) =
     Inr ((3, 0, []),
          \<lparr>training_loss = 0, validation_loss = 1 / 2, test_loss = 1 / 2,
             base_PSNR = Finite 3, test_PSNR = Finite 3\<rparr>) \<and>
   epoch_summary bs train_err train_batches validate_err 0 test_err base_psnr test_psnr
     test_batches = Inl ZeroDivisionError \<and>
   epoch_summary bs train_err train_batches validate_err 1 test_err base_psnr test_psnr 0
     = Inl ZeroDivisionError"
proof (intro conjI)
  show "epoch env0 \<lparr>gauss_ivar = 3 / 2000, num_epoch = 10, batch_size = 10, save_fig = False\<rparr>
     [[[(1, 0)]]] [] [[[(1, 0)]]] 0 (0, 0, []) = Inl ZeroDivisionError"
    by code_simp
  show "epoch env0 \<lparr>gauss_ivar = 3 / 2000, num_epoch = 10, batch_size = 10, save_fig = False\<rparr>
     [[[(1, 0)]]] [[[(1, 0)]]] [] 0 (0, 0, []) = Inl ZeroDivisionError"
    by code_simp
  show "epoch env0 \<lparr>gauss_ivar = 3 / 2000, num_epoch = 10, batch_size = 10, save_fig = False\<rparr>
     [] [[[(1, 0)]]] [[[(1, 0)]]] 0 (0, 0, []) =
     Inr ((3, 0, []),
          \<lparr>training_loss = 0, validation_loss = 1 / 2, test_loss = 1 / 2,
             base_PSNR = Finite 3, test_PSNR = Finite 3\<rparr>)"
    by code_simp
  show "epoch_summary bs train_err train_batches validate_err 0 test_err base_psnr test_psnr
     test_batches = Inl ZeroDivisionError"
    by (simp add: epoch_summary_def py_truediv_def)
  show "epoch_summary bs train_err train_batches validate_err 1 test_err base_psnr test_psnr 0
     = Inl ZeroDivisionError"
    by (simp add: epoch_summary_def py_truediv_def)
qed

subsection \<open>Claim C10: the divisor of the reported PSNR\<close>

lemma xrange_from_done: "n \<le> i \<Longrightarrow> xrange_from i n step = []"
  by (simp add: xrange_from.simps[of i n step])

lemma batches_of_single: "0 < B \<Longrightarrow> batches_of [x] B = [[x]]"
  by (simp add: batches_of_def xrange_from.simps[of 0 "Suc 0" B] xrange_from_done)

lemma env1_prep_input:
  "prep_input env1 [[[(1, 0)]]] g r =
     (([[[[0]], [[0]]]], [[[[0]], [[0]]]], [[[[True]], [[True]]]], [[[[1]], [[0]]]]), r + 1)"
  by (simp add: prep_input_def prep_input_mask_def cartesian_mask_def env1_def env0_def shape3_def
        to_lasagne_format_def to_lasagne_format_mask_def lowest_freq_def centred_freq_def
        ifftshift_def Let_def)

lemma env1_iterate:
  "iterate_minibatch (np_random_permutation env1) [[[(1::real, 0::real)]]] 2 True r
     = Inr ([[[[(1, 0)]]]], r + 1)"
  "iterate_minibatch (np_random_permutation env1) [[[(1::real, 0::real)]]] 2 False r
     = Inr ([[[[(1, 0)]]]], r)"
proof -
  have d: "permutation_draw (fst (np_random_permutation env1 r (length [[[(1::real, 0::real)]]])))
             (length [[[(1::real, 0::real)]]])"
    by (simp add: env1_def env0_def permutation_draw_def)
  show "iterate_minibatch (np_random_permutation env1) [[[(1::real, 0::real)]]] 2 True r
     = Inr ([[[[(1, 0)]]]], r + 1)"
    using iterate_minibatch_shuffled[where permutation="np_random_permutation env1" and r=r
        and data="[[[(1::real, 0::real)]]]" and B=2, OF _ d]
    by (simp add: batches_of_single shuffled_def env1_def env0_def)
  show "iterate_minibatch (np_random_permutation env1) [[[(1::real, 0::real)]]] 2 False r
     = Inr ([[[[(1, 0)]]]], r)"
    using iterate_minibatch_in_order[where permutation="np_random_permutation env1" and r=r
        and data="[[[(1::real, 0::real)]]]" and B=2]
    by (simp add: batches_of_single)
qed

lemma env1_psnr:
  "complex_psnr_max [[(1, 0)]] [[(0, 0)]] = Finite 0"
  "complex_psnr_max [[(1, 0)]] [[(3, 3)]] = Finite (10 * log 10 (1 / 13))"
  by (simp_all add: complex_psnr_max_def)

lemma env1_psnr_negative: "10 * log 10 (1 / 13) < (0::real)"
  by simp

lemma env1_epoch:
  "epoch env1 \<lparr>gauss_ivar = 3 / 2000, num_epoch = 10, batch_size = 2, save_fig = False\<rparr>
     [[[(1, 0)]]] [[[(1, 0)]]] [[[(1, 0)]]] 0 (0, 0, []) =
   Inr ((4, 1, []),
        \<lparr>training_loss = 1, validation_loss = 1 / 2, test_loss = 1 / 2,
           base_PSNR = Finite 0,
           test_PSNR = Finite (10 * log 10 (1 / 13) / 2)\<rparr>)"
proof -
  have p: "complex_psnr env1 = complex_psnr_max" by (simp add: env1_def)
  show ?thesis
    apply (simp add: epoch_def env1_iterate env1_prep_input)
    apply (simp add: env1_def env0_def)
    apply (simp add: env1_psnr epoch_summary_def py_truediv_def np_truediv_def checkpoint_def)
    done
qed

lemma env1_test_terms:
  "test_terms env1 g p (batches_of [[[(1, 0)]]] 2) r
     = [(Finite 0, Finite (10 * log 10 (1 / 13)))]"
  apply (simp add: batches_of_single env1_prep_input)
  apply (simp add: env1_def env0_def)
  apply (simp add: env1_psnr)
  done

lemma env2_prep_input:
  "prep_input env2 [[[(1, 0)]]] g r =
     (([[[[1]], [[0]]]], [[[[1]], [[0]]]], [[[[True]], [[True]]]], [[[[1]], [[0]]]]), r + 1)"
  by (simp add: prep_input_def prep_input_mask_def cartesian_mask_def env2_def env0_def shape3_def
        to_lasagne_format_def to_lasagne_format_mask_def lowest_freq_def centred_freq_def
        ifftshift_def Let_def)

lemma env2_iterate:
  "iterate_minibatch (np_random_permutation env2) [[[(1::real, 0::real)]]] 2 True r
     = Inr ([[[[(1, 0)]]]], r + 1)"
  "iterate_minibatch (np_random_permutation env2) [[[(1::real, 0::real)]]] 2 False r
     = Inr ([[[[(1, 0)]]]], r)"
proof -
  have e: "np_random_permutation env2 = np_random_permutation env1"
    by (simp add: env2_def env1_def)
  show "iterate_minibatch (np_random_permutation env2) [[[(1::real, 0::real)]]] 2 True r
     = Inr ([[[[(1, 0)]]]], r + 1)"
    unfolding e by (rule env1_iterate(1))
  show "iterate_minibatch (np_random_permutation env2) [[[(1::real, 0::real)]]] 2 False r
     = Inr ([[[[(1, 0)]]]], r)"
    unfolding e by (rule env1_iterate(2))
qed

text \<open>The metric of an image against itself is plus infinity, for an image that is not zero.\<close>

lemma complex_psnr_max_identical:
  assumes "(a, b) \<in> set (concat x)" and "(a, b) \<noteq> (0, 0)"
  shows "complex_psnr_max x x = PInf"
proof -
  let ?f = "\<lambda>(a::real, b::real). sqrt (a\<^sup>2 + b\<^sup>2)"
  let ?d = "map (\<lambda>((a::real, b::real), (c, e)). (a - c)\<^sup>2 + (b - e)\<^sup>2)
              (zip (concat x) (concat x))"
  have "?d = map (\<lambda>z. 0) (concat x)"
    by (simp add: zip_same_conv_map case_prod_beta)
  then have "sum_list ?d = 0" by simp
  then have mse: "sum_list ?d / real (length ?d) = 0" by simp
  have "?f (a, b) \<in> set (map ?f (concat x))"
    unfolding set_map using assms(1) by (rule imageI)
  then have "?f (a, b) \<le> Max (set (map ?f (concat x)))" by (intro Max_ge) simp_all
  moreover have "0 < ?f (a, b)" using assms(2) by (simp add: sum_power2_gt_zero_iff)
  ultimately have peak: "Max (set (map ?f (concat x))) \<noteq> 0" by linarith
  show ?thesis
    unfolding complex_psnr_max_def Let_def mse using peak by simp
qed

lemma env2_psnr: "complex_psnr_max [[(1, 0)]] [[(1, 0)]] = PInf"
  by (rule complex_psnr_max_identical[of 1 0]) simp_all

lemma env2_epoch:
  "epoch env2 \<lparr>gauss_ivar = 3 / 2000, num_epoch = 10, batch_size = 2, save_fig = False\<rparr>
     [[[(1, 0)]]] [[[(1, 0)]]] [[[(1, 0)]]] 0 (0, 0, []) =
   Inr ((4, 1, []),
        \<lparr>training_loss = 1, validation_loss = 1 / 2, test_loss = 1 / 2,
           base_PSNR = PInf, test_PSNR = PInf\<rparr>)"
  apply (simp add: epoch_def env2_iterate env2_prep_input)
  apply (simp add: env2_def env0_def)
  apply (simp add: env2_psnr epoch_summary_def py_truediv_def np_truediv_def checkpoint_def)
  done

lemma env2_test_terms:
  "test_terms env2 g p (batches_of [[[(1, 0)]]] 2) r = [(PInf, PInf)]"
  apply (simp add: batches_of_single env2_prep_input)
  apply (simp add: env2_def env0_def)
  apply (simp add: env2_psnr)
  done

lemma test_loop_batches:
  "test_loop E g sf p ims (r, te, b, t, n, vis) = Inr (r', te', b', t', n', vis')
   \<Longrightarrow> n' = n + int (length ims)"
proof (induction ims arbitrary: r te b t n vis sf)
  case Nil
  then show ?case by simp
next
  case (Cons im ims)
  from Cons.prems show ?case
    by (auto split: prod.splits sum.splits if_splits dest!: Cons.IH)
qed

lemma ceil_times_exceeds:
  assumes "0 < (B::nat)" "N mod B \<noteq> 0"
  shows "N < ((N + B - 1) div B) * B"
proof -
  have "N = (N div B) * B + N mod B" by simp
  moreover have "N mod B < B" using assms(1) by simp
  ultimately have "N < (N div B) * B + B" by linarith
  then show ?thesis using ceil_mod[OF assms] by simp
qed

lemma epoch_summary_psnr:
  assumes "epoch_summary bs train_err train_batches validate_err validate_batches
             test_err base_psnr test_psnr test_batches = Inr rep"
  shows "np_truediv base_psnr (test_batches * bs) = Inr (base_PSNR rep)"
    and "np_truediv test_psnr (test_batches * bs) = Inr (test_PSNR rep)"
  using assms
  by (auto simp: epoch_summary_def split: sum.splits)

lemma from_lasagne_format_length:
  "from_lasagne_format t = Inr xs \<Longrightarrow> length xs = length t"
  by (induction t arbitrary: xs) (auto split: sum.splits)

lemma prep_input_und:
  assumes "prep_input E im g r = ((im_und, k_und, msk, im_gnd), r')"
  shows "im_und = to_lasagne_format (fst (undersample E im (fst (prep_input_mask E im g r))))"
  using assms by (auto simp: prep_input_def Let_def split: prod.splits)

lemma psnr_loop_terms:
  "psnr_loop E zs (b, t) =
     (fold (\<lambda>x acc. np_add acc x)
        (map (\<lambda>(im_i, und_i, pred_i). complex_psnr E im_i und_i) zs) b,
      fold (\<lambda>x acc. np_add acc x)
        (map (\<lambda>(im_i, und_i, pred_i). complex_psnr E im_i pred_i) zs) t)"
  by (induction zs arbitrary: b t) auto

lemma test_loop_terms:
  assumes "\<forall>im m. length (fst (undersample E im m)) = length im"
    and "\<forall>p a m k t. length (snd (val_fn E p a m k t)) = length a"
    and "test_loop E g sf p ims (r, te, b, t, n, vis) = Inr (r', te', b', t', n', vis')"
  shows "b' = fold (\<lambda>x acc. np_add acc x) (map fst (test_terms E g p ims r)) b \<and>
         t' = fold (\<lambda>x acc. np_add acc x) (map snd (test_terms E g p ims r)) t \<and>
         length (test_terms E g p ims r) = sum_list (map length ims) \<and>
         (\<exists>zs. map fst zs = concat ims \<and>
               test_terms E g p ims r =
                 map (\<lambda>(im_i, und_i, pred_i).
                        (complex_psnr E im_i und_i, complex_psnr E im_i pred_i)) zs)"
  using assms(3)
proof (induction ims arbitrary: r te b t n vis)
  case Nil
  then show ?case by simp
next
  case (Cons im ims)
  obtain im_und k_und msk im_gnd r1 where
    a: "prep_input E im g r = ((im_und, k_und, msk, im_gnd), r1)"
    by (metis prod.exhaust)
  obtain err pred where v: "val_fn E p im_und msk k_und im_gnd = (err, pred)"
    by (metis prod.exhaust)
  from Cons.prems obtain unds where u: "from_lasagne_format im_und = Inr unds"
    by (cases "from_lasagne_format im_und") (simp_all add: a v)
  from Cons.prems obtain preds where q: "from_lasagne_format pred = Inr preds"
    by (cases "from_lasagne_format pred") (simp_all add: a v u)
  let ?zs = "zip im (zip unds preds)"
  let ?fb = "\<lambda>(im_i, und_i, pred_i). complex_psnr E im_i und_i"
  let ?ft = "\<lambda>(im_i, und_i, pred_i). complex_psnr E im_i pred_i"
  let ?b1 = "fold (\<lambda>x acc. np_add acc x) (map ?fb ?zs) b"
  let ?t1 = "fold (\<lambda>x acc. np_add acc x) (map ?ft ?zs) t"
  have ps: "psnr_loop E ?zs (b, t) = (?b1, ?t1)" by (rule psnr_loop_terms)
  from Cons.prems obtain vis1 where
    rest: "test_loop E g sf p ims (r1, te + err, ?b1, ?t1, n + 1, vis1)
             = Inr (r', te', b', t', n', vis')"
    unfolding test_loop.simps a v u q ps prod.case sum.case
    by (auto split: if_splits sum.splits)
  note ih = Cons.IH[OF rest]
  have tt: "test_terms E g p (im # ims) r =
              map (\<lambda>(im_i, und_i, pred_i).
                     (complex_psnr E im_i und_i, complex_psnr E im_i pred_i)) ?zs
              @ test_terms E g p ims r1"
    by (simp add: a v u q)
  have m1: "map fst (map (\<lambda>(im_i, und_i, pred_i).
                     (complex_psnr E im_i und_i, complex_psnr E im_i pred_i)) ?zs) = map ?fb ?zs"
    by (simp add: case_prod_beta)
  have m2: "map snd (map (\<lambda>(im_i, und_i, pred_i).
                     (complex_psnr E im_i und_i, complex_psnr E im_i pred_i)) ?zs) = map ?ft ?zs"
    by (simp add: case_prod_beta)
  obtain m where "im_und = to_lasagne_format (fst (undersample E im m))"
    using prep_input_und[OF a] by blast
  then have lu: "length im_und = length im"
    using assms(1) by (simp add: to_lasagne_format_def)
  have "length pred = length im_und"
    using assms(2)[rule_format, of p im_und msk k_und im_gnd] unfolding v by simp
  then have lp: "length preds = length im"
    using from_lasagne_format_length[OF q] lu by simp
  have lun: "length unds = length im"
    using from_lasagne_format_length[OF u] lu by simp
  have lz: "length ?zs = length im" using lp lun by simp
  have b: "b' = fold (\<lambda>x acc. np_add acc x) (map fst (test_terms E g p (im # ims) r)) b"
    unfolding tt map_append m1 fold_append comp_apply using ih by blast
  have t: "t' = fold (\<lambda>x acc. np_add acc x) (map snd (test_terms E g p (im # ims) r)) t"
    unfolding tt map_append m2 fold_append comp_apply using ih by blast
  have l: "length (test_terms E g p (im # ims) r) = sum_list (map length (im # ims))"
    unfolding tt using ih lz by simp
  from ih obtain zs where
    zs: "map fst zs = concat ims"
        "test_terms E g p ims r1 =
           map (\<lambda>(im_i, und_i, pred_i).
                  (complex_psnr E im_i und_i, complex_psnr E im_i pred_i)) zs"
    by blast
  have "length im = length (zip unds preds)" using lp lun by simp
  then have fz: "map fst ?zs = im" by (rule map_fst_zip)
  have z: "\<exists>zs. map fst zs = concat (im # ims) \<and>
               test_terms E g p (im # ims) r =
                 map (\<lambda>(im_i, und_i, pred_i).
                        (complex_psnr E im_i und_i, complex_psnr E im_i pred_i)) zs"
    by (rule exI[of _ "?zs @ zs"]) (simp only: tt zs map_append fz concat.simps simp_thms)
  show ?case using b t l z by blast
qed

lemma np_truediv_less:
  assumes "0 < N" "N < D"
  shows "\<exists>a m. np_truediv x D = Inr a \<and> np_truediv x N = Inr m \<and>
               (np_less a m \<longleftrightarrow> (\<exists>s. x = Finite s \<and> 0 < s))"
proof (cases x)
  case (Finite s)
  have rN: "0 < real_of_int N" and rD: "real_of_int N < real_of_int D"
    using assms by simp_all
  have "s / real_of_int D < s / real_of_int N \<longleftrightarrow> 0 < s"
  proof (cases "0 < s")
    case True
    then show ?thesis using rN rD by (simp add: divide_strict_left_mono)
  next
    case False
    then have "s \<le> 0" by simp
    then have "s / real_of_int N \<le> s / real_of_int D"
      using rN rD by (simp add: divide_left_mono_neg)
    then show ?thesis using False by simp
  qed
  then show ?thesis using assms Finite by (simp add: np_truediv_def)
qed (use assms in \<open>simp_all add: np_truediv_def\<close>)

text \<open>
  Claim C10, as the code has it. The summary reports the base PSNR and the test PSNR
  as the accumulated sums divided by \<open>test_batches * batch_size\<close>. Provided the
  undersampling simulator and the network return one image for each image of a batch,
  the test pass over a split of \<open>N\<close> images accumulates exactly \<open>N\<close> per-image PSNR
  terms in each sum. When \<open>N\<close> is not a multiple of \<open>batch_size\<close>, the divisor is
  strictly greater than \<open>N\<close>, the number of terms accumulated, and the reported value
  is strictly smaller than the arithmetic mean of the per-image values exactly when
  the accumulated sum is finite and positive. The claim states it for every sum. It
  fails for a sum that is negative or zero, as in the second environment, where the
  single test image has a negative PSNR and the reported value is greater than the
  mean; it also fails for an infinite sum, whose quotient by either divisor is the
  same infinity, as in the third environment, where the undersampled image and the
  prediction are the test image itself.
\<close>

theorem psnr_report_divisor:
  assumes "1 \<le> batch_size cfg"
    and "\<not> batch_size cfg dvd int (length test)"
    and "\<forall>im m. length (fst (undersample E im m)) = length im"
    and "\<forall>p a m k t. length (snd (val_fn E p a m k t)) = length a"
    and "test_loop E g sf p (batches_of test (nat (batch_size cfg)))
           (r, 0, Finite 0, Finite 0, 0, [])
         = Inr (r', test_err, base_psnr, test_psnr, test_batches, vis)"
    and "epoch_summary (batch_size cfg) train_err train_batches validate_err validate_batches
           test_err base_psnr test_psnr test_batches = Inr rep"
  shows "let terms = test_terms E g p (batches_of test (nat (batch_size cfg))) r;
             D = test_batches * batch_size cfg
         in length terms = length test \<and>
            (\<exists>zs. map fst zs = test \<and>
                  terms = map (\<lambda>(im_i, und_i, pred_i).
                                 (complex_psnr E im_i und_i, complex_psnr E im_i pred_i)) zs) \<and>
            base_psnr = np_sum (map fst terms) \<and>
            test_psnr = np_sum (map snd terms) \<and>
            np_truediv base_psnr D = Inr (base_PSNR rep) \<and>
            np_truediv test_psnr D = Inr (test_PSNR rep) \<and>
            int (length terms) < D \<and>
            (\<exists>mb mt. np_mean (map fst terms) = Inr mb \<and>
                     np_mean (map snd terms) = Inr mt \<and>
                     (np_less (base_PSNR rep) mb \<longleftrightarrow> (\<exists>s. base_psnr = Finite s \<and> 0 < s)) \<and>
                     (np_less (test_PSNR rep) mt \<longleftrightarrow> (\<exists>s. test_psnr = Finite s \<and> 0 < s)))"
proof -
  let ?B = "nat (batch_size cfg)"
  let ?N = "length test"
  let ?D = "test_batches * batch_size cfg"
  let ?terms = "test_terms E g p (batches_of test ?B) r"
  have pos: "0 < ?B" using assms(1) by simp
  have B: "int ?B = batch_size cfg" using assms(1) by simp
  have "\<not> int ?B dvd int ?N" using assms(2) unfolding B .
  then have "\<not> ?B dvd ?N" by (simp only: int_dvd_int_iff not_False_eq_True)
  then have nd: "?N mod ?B \<noteq> 0" by (simp add: mod_eq_0_iff_dvd)
  have "test_batches = 0 + int (length (batches_of test ?B))"
    by (rule test_loop_batches[OF assms(5)])
  then have tb: "test_batches = int ((?N + ?B - 1) div ?B)"
    by (simp add: batches_of_length[OF pos])
  have "int ?N < int (((?N + ?B - 1) div ?B) * ?B)"
    using ceil_times_exceeds[OF pos nd] by (simp only: of_nat_less_iff)
  then have lt: "int ?N < ?D" unfolding tb using B by simp
  have N0: "0 < int ?N" using nd by (cases "?N = 0") simp_all
  note tm = test_loop_terms[OF assms(3) assms(4) assms(5)]
  have len: "length ?terms = ?N"
    using tm batches_of_sum[OF pos, of test] by simp
  have sb: "base_psnr = np_sum (map fst ?terms)"
    using tm by (simp add: np_sum_def)
  have st: "test_psnr = np_sum (map snd ?terms)"
    using tm by (simp add: np_sum_def)
  note f = epoch_summary_psnr[OF assms(6)]
  obtain mb where mb: "np_truediv base_psnr (int ?N) = Inr mb"
    and cb: "np_less (base_PSNR rep) mb \<longleftrightarrow> (\<exists>s. base_psnr = Finite s \<and> 0 < s)"
    using np_truediv_less[OF N0 lt, of base_psnr] unfolding f(1) by auto
  obtain mt where mt: "np_truediv test_psnr (int ?N) = Inr mt"
    and ct: "np_less (test_PSNR rep) mt \<longleftrightarrow> (\<exists>s. test_psnr = Finite s \<and> 0 < s)"
    using np_truediv_less[OF N0 lt, of test_psnr] unfolding f(2) by auto
  have meb: "np_mean (map fst ?terms) = Inr mb"
    unfolding np_mean_def sb[symmetric] length_map len by (rule mb)
  have met: "np_mean (map snd ?terms) = Inr mt"
    unfolding np_mean_def st[symmetric] length_map len by (rule mt)
  have ex: "\<exists>mb mt. np_mean (map fst ?terms) = Inr mb \<and>
                     np_mean (map snd ?terms) = Inr mt \<and>
                     (np_less (base_PSNR rep) mb \<longleftrightarrow> (\<exists>s. base_psnr = Finite s \<and> 0 < s)) \<and>
                     (np_less (test_PSNR rep) mt \<longleftrightarrow> (\<exists>s. test_psnr = Finite s \<and> 0 < s))"
    using meb met cb ct by blast
  have ltt: "int (length ?terms) < ?D" unfolding len by (rule lt)
  have im: "\<exists>zs. map fst zs = test \<and>
                  ?terms = map (\<lambda>(im_i, und_i, pred_i).
                                 (complex_psnr E im_i und_i, complex_psnr E im_i pred_i)) zs"
    using tm unfolding batches_of_concat[OF pos] by blast
  show ?thesis
    unfolding Let_def using len im sb st f ltt ex by blast
qed

theorem psnr_report_divisor_witness:
  "\<exists>rep. epoch_summary 2 1 1 (1 / 2) 1 1 (Finite 90) (Finite 90) 2 = Inr rep \<and>
         test_terms env0 (3 / 2000) 0 (batches_of (replicate 3 [[(1::real, 0::real)]]) 2) 0
           = replicate 3 (Finite 30, Finite 30) \<and>
         length (test_terms env0 (3 / 2000) 0
                   (batches_of (replicate 3 [[(1::real, 0::real)]]) 2) 0) = 3 \<and>
         np_sum (map snd (test_terms env0 (3 / 2000) 0
                   (batches_of (replicate 3 [[(1::real, 0::real)]]) 2) 0)) = Finite 90 \<and>
         np_mean (map snd (test_terms env0 (3 / 2000) 0
                   (batches_of (replicate 3 [[(1::real, 0::real)]]) 2) 0)) = Inr (Finite 30) \<and>
         np_mean (map fst (test_terms env0 (3 / 2000) 0
                   (batches_of (replicate 3 [[(1::real, 0::real)]]) 2) 0)) = Inr (Finite 30) \<and>
         test_PSNR rep = Finite (45 / 2) \<and> np_less (test_PSNR rep) (Finite 30) \<and>
         base_PSNR rep = Finite (45 / 2) \<and> np_less (base_PSNR rep) (Finite 30)"
proof -
  let ?cfg = "\<lparr>gauss_ivar = 3 / 2000, num_epoch = 10, batch_size = 2, save_fig = False\<rparr>"
  let ?test = "replicate 3 [[(1::real, 0::real)]]"
  let ?terms = "test_terms env0 (3 / 2000) 0 (batches_of ?test 2) 0"
  have b: "1 \<le> batch_size ?cfg" by simp
  have nd: "\<not> batch_size ?cfg dvd int (length ?test)" by simp
  have h1: "\<forall>im m. length (fst (undersample env0 im m)) = length im"
    by (simp add: env0_def)
  have h2: "\<forall>p a m k t. length (snd (val_fn env0 p a m k t)) = length a"
    by (simp add: env0_def)
  have tl: "test_loop env0 (3 / 2000) False 0 (batches_of ?test (nat (batch_size ?cfg)))
              (0, 0, Finite 0, Finite 0, 0, []) = Inr (2, 1, Finite 90, Finite 90, 2, [])"
    by code_simp
  obtain rep where
    es: "epoch_summary (batch_size ?cfg) 1 1 (1 / 2) 1 1 (Finite 90) (Finite 90) 2 = Inr rep"
    by (simp add: epoch_summary_def py_truediv_def np_truediv_def)
  have T: "nat (batch_size ?cfg) = 2" by simp
  note th = psnr_report_divisor[OF b nd h1 h2 tl es, unfolded Let_def T]
  note th1 = th[THEN conjunct2]
  note th2 = th1[THEN conjunct2]
  note th3 = th2[THEN conjunct2]
  note th4 = th3[THEN conjunct2]
  note th5 = th4[THEN conjunct2]
  note th6 = th5[THEN conjunct2]
  have len: "length ?terms = 3" using th[THEN conjunct1] by simp
  have sb: "np_sum (map fst ?terms) = Finite 90" by (rule th2[THEN conjunct1, symmetric])
  have st: "np_sum (map snd ?terms) = Finite 90" by (rule th3[THEN conjunct1, symmetric])
  have rb: "np_truediv (Finite 90) (2 * batch_size ?cfg) = Inr (base_PSNR rep)"
    by (rule th4[THEN conjunct1])
  have rt: "np_truediv (Finite 90) (2 * batch_size ?cfg) = Inr (test_PSNR rep)"
    by (rule th5[THEN conjunct1])
  have ex: "\<exists>s. Finite 90 = Finite s \<and> 0 < (s::real)" by simp
  from th6[THEN conjunct2] obtain mb mt where
    mb: "np_mean (map fst ?terms) = Inr mb" and
    mt: "np_mean (map snd ?terms) = Inr mt" and
    cb: "np_less (base_PSNR rep) mb" and
    ct: "np_less (test_PSNR rep) mt"
    using ex by blast
  have vb: "mb = Finite 30" using mb unfolding np_mean_def sb length_map len
    by (simp add: np_truediv_def)
  have vt: "mt = Finite 30" using mt unfolding np_mean_def st length_map len
    by (simp add: np_truediv_def)
  have pb: "base_PSNR rep = Finite (45 / 2)" using rb by (simp add: np_truediv_def)
  have pt: "test_PSNR rep = Finite (45 / 2)" using rt by (simp add: np_truediv_def)
  from th1[THEN conjunct1] obtain zs where
    zs: "map fst zs = ?test"
        "?terms = map (\<lambda>(im_i, und_i, pred_i).
                        (complex_psnr env0 im_i und_i, complex_psnr env0 im_i pred_i)) zs"
    by blast
  have lz: "length zs = 3" using zs(1) len zs(2) by simp
  have "?terms = map (\<lambda>z. (Finite 30, Finite 30)) zs"
    unfolding zs(2) by (simp add: env0_def case_prod_beta)
  then have tv: "?terms = replicate 3 (Finite 30, Finite 30)"
    unfolding map_replicate_const lz .
  show ?thesis
    using es tv len st mb mt cb ct pb pt unfolding vb vt by simp
qed

theorem psnr_report_counterexample:
  "(\<exists>w rep t.
     epoch env1 \<lparr>gauss_ivar = 3 / 2000, num_epoch = 10, batch_size = 2, save_fig = False\<rparr>
       [[[(1, 0)]]] [[[(1, 0)]]] [[[(1, 0)]]] 0 (0, 0, []) = Inr (w, rep) \<and>
     \<not> (2::int) dvd int (length [[[(1::real, 0::real)]]]) \<and>
     test_terms env1 (3 / 2000) 1 (batches_of [[[(1, 0)]]] 2) 3 = [(Finite 0, Finite t)] \<and>
     complex_psnr_max [[(1, 0)]] [[(3, 3)]] = Finite t \<and>
     np_mean [Finite t] = Inr (Finite t) \<and>
     test_PSNR rep = Finite (t / 2) \<and>
     \<not> np_less (test_PSNR rep) (Finite t) \<and>
     np_less (Finite t) (test_PSNR rep)) \<and>
   (\<exists>w rep.
     epoch env2 \<lparr>gauss_ivar = 3 / 2000, num_epoch = 10, batch_size = 2, save_fig = False\<rparr>
       [[[(1, 0)]]] [[[(1, 0)]]] [[[(1, 0)]]] 0 (0, 0, []) = Inr (w, rep) \<and>
     test_terms env2 (3 / 2000) 1 (batches_of [[[(1, 0)]]] 2) 3 = [(PInf, PInf)] \<and>
     complex_psnr_max [[(1, 0)]] [[(1, 0)]] = PInf \<and>
     np_mean [PInf] = Inr PInf \<and>
     test_PSNR rep = PInf \<and>
     \<not> np_less (test_PSNR rep) PInf)"
proof (rule conjI)
  have mean: "np_mean [PInf] = Inr PInf"
    by (simp add: np_mean_def np_sum_def np_truediv_def)
  show "\<exists>w rep.
     epoch env2 \<lparr>gauss_ivar = 3 / 2000, num_epoch = 10, batch_size = 2, save_fig = False\<rparr>
       [[[(1, 0)]]] [[[(1, 0)]]] [[[(1, 0)]]] 0 (0, 0, []) = Inr (w, rep) \<and>
     test_terms env2 (3 / 2000) 1 (batches_of [[[(1, 0)]]] 2) 3 = [(PInf, PInf)] \<and>
     complex_psnr_max [[(1, 0)]] [[(1, 0)]] = PInf \<and>
     np_mean [PInf] = Inr PInf \<and>
     test_PSNR rep = PInf \<and>
     \<not> np_less (test_PSNR rep) PInf"
    apply (rule exI[of _ "(4, 1, [])"])
    apply (rule exI)
    apply (intro conjI)
         apply (rule env2_epoch)
        apply (rule env2_test_terms)
       apply (rule env2_psnr)
      apply (rule mean)
     apply simp
    apply simp
    done
next
  let ?t = "10 * log 10 (1 / 13) :: real"
  have neg: "?t < 0" by (rule env1_psnr_negative)
  have mean: "np_mean [Finite ?t] = Inr (Finite ?t)"
    by (simp add: np_mean_def np_sum_def np_truediv_def)
  have cmp: "\<not> np_less (Finite (?t / 2)) (Finite ?t)" "np_less (Finite ?t) (Finite (?t / 2))"
    using neg by simp_all
  show "\<exists>w rep t.
     epoch env1 \<lparr>gauss_ivar = 3 / 2000, num_epoch = 10, batch_size = 2, save_fig = False\<rparr>
       [[[(1, 0)]]] [[[(1, 0)]]] [[[(1, 0)]]] 0 (0, 0, []) = Inr (w, rep) \<and>
     \<not> (2::int) dvd int (length [[[(1::real, 0::real)]]]) \<and>
     test_terms env1 (3 / 2000) 1 (batches_of [[[(1, 0)]]] 2) 3 = [(Finite 0, Finite t)] \<and>
     complex_psnr_max [[(1, 0)]] [[(3, 3)]] = Finite t \<and>
     np_mean [Finite t] = Inr (Finite t) \<and>
     test_PSNR rep = Finite (t / 2) \<and>
     \<not> np_less (test_PSNR rep) (Finite t) \<and>
     np_less (Finite t) (test_PSNR rep)"
    apply (rule exI[of _ "(4, 1, [])"])
    apply (rule exI)
    apply (rule exI[of _ ?t])
    apply (intro conjI)
           apply (rule env1_epoch)
          apply simp
         apply (rule env1_test_terms)
        apply (rule env1_psnr(2))
       apply (rule mean)
      apply simp
     apply (simp only: report.simps cmp not_False_eq_True)
    apply (simp only: report.simps cmp)
    done
qed

subsection \<open>Claim C6: the centre of the mask\<close>

lemma shifted_freq:
  assumes "i < Nx"
  shows "centred_freq Nx ((Nx div 2 + i) mod Nx) = fftfreq Nx i"
proof (cases "i < (Nx + 1) div 2")
  case True
  then have "Nx div 2 + i < Nx" by arith
  then show ?thesis using True by (simp add: centred_freq_def fftfreq_def)
next
  case False
  then have ge: "Nx \<le> Nx div 2 + i" by arith
  have "Nx div 2 + i - Nx < Nx" using assms by arith
  then have "(Nx div 2 + i) mod Nx = Nx div 2 + i - Nx"
    using ge by (simp add: le_mod_geq)
  then show ?thesis using False ge by (simp add: centred_freq_def fftfreq_def)
qed

lemma cartesian_mask_rows:
  "fst (cartesian_mask ld (N, Nx, Ny) ivar centred shf sc k r) =
     map (\<lambda>b. map (replicate Ny)
               ((if centred then id else ifftshift)
                  (map (\<lambda>j. fst (ld r ivar shf k) b j \<or>
                             (sc \<and> lowest_freq k (centred_freq Nx j))) [0..<Nx])))
         [0..<N]"
  by (simp add: cartesian_mask_def Let_def split: prod.splits)

lemma ifftshift_nth:
  "i < length xs \<Longrightarrow> ifftshift xs ! i = xs ! ((length xs div 2 + i) mod length xs)"
  by (simp add: ifftshift_def nth_rotate)

lemma cartesian_mask_entry:
  assumes "b < N" "i < Nx" "y < Ny"
  shows "fst (cartesian_mask ld (N, Nx, Ny) ivar centred shf sc k r) ! b ! i ! y
         \<longleftrightarrow> (let j = (if centred then i else (Nx div 2 + i) mod Nx)
              in fst (ld r ivar shf k) b j \<or> (sc \<and> lowest_freq k (centred_freq Nx j)))"
proof -
  have m: "(Nx div 2 + i) mod Nx < Nx" using assms(2) by simp
  show ?thesis
    using assms m
    by (simp add: cartesian_mask_rows ifftshift_def nth_rotate Let_def)
qed

lemma lowest_freq_abs: "lowest_freq k f \<Longrightarrow> \<not> lowest_freq k f' \<Longrightarrow> \<bar>f\<bar> \<le> \<bar>f'\<bar>"
  unfolding lowest_freq_def by arith

lemma lowest_lines_centred:
  assumes "k \<le> Nx"
  shows "{i. i < Nx \<and> lowest_freq k (centred_freq Nx i)}
         = {Nx div 2 - k div 2 ..< Nx div 2 - k div 2 + k}"
  using assms unfolding lowest_freq_def centred_freq_def by auto

lemma lowest_lines_unshifted:
  assumes "k \<le> Nx"
  shows "{i. i < Nx \<and> lowest_freq k (fftfreq Nx i)}
         = {0 ..< k - k div 2} \<union> {Nx - k div 2 ..< Nx}"
  using assms unfolding lowest_freq_def fftfreq_def by (auto split: if_splits)

lemma lowest_lines_card:
  assumes "k \<le> Nx"
  shows "card {i. i < Nx \<and> lowest_freq k (line_freq centred Nx i)} = k"
proof (cases centred)
  case True
  then show ?thesis using lowest_lines_centred[OF assms] by (simp add: line_freq_def)
next
  case False
  have "{0 ..< k - k div 2} \<inter> {Nx - k div 2 ..< Nx} = {}" using assms by auto
  then have "card ({0 ..< k - k div 2} \<union> {Nx - k div 2 ..< Nx})
             = card {0 ..< k - k div 2} + card {Nx - k div 2 ..< Nx}"
    by (intro card_Un_disjoint) simp_all
  also have "\<dots> = k" using assms by simp
  finally show ?thesis using False lowest_lines_unshifted[OF assms] by (simp add: line_freq_def)
qed

lemma prep_input_mask_l:
  "fst (snd (snd (fst (prep_input E im g r))))
   = to_lasagne_format_mask (fst (prep_input_mask E im g r))"
  by (simp add: prep_input_def Let_def split: prod.splits)

lemma cartesian_mask_length:
  "length (fst (cartesian_mask ld (N, Nx, Ny) ivar centred shf sc k r)) = N"
  by (simp add: cartesian_mask_rows)

lemma cartesian_mask_forced:
  assumes "b < N" "i < Nx" "y < Ny" "lowest_freq k (line_freq centred Nx i)"
  shows "fst (cartesian_mask ld (N, Nx, Ny) ivar centred shf True k r) ! b ! i ! y"
proof (cases centred)
  case True
  then show ?thesis
    using assms by (simp add: cartesian_mask_entry[OF assms(1,2,3)] line_freq_def)
next
  case False
  then have "lowest_freq k (centred_freq Nx ((Nx div 2 + i) mod Nx))"
    using assms(4) by (simp only: shifted_freq[OF assms(2)] line_freq_def if_False)
  then show ?thesis
    using False by (simp add: cartesian_mask_entry[OF assms(1,2,3)])
qed

lemma prep_input_mask_forced:
  assumes "shape3 im = (n, nx, ny)"
    and "b < n" "c < 2" "i < nx" "y < ny" "lowest_freq 8 (line_freq False nx i)"
  shows "fst (snd (snd (fst (prep_input E im g r)))) ! b ! c ! i ! y"
proof -
  let ?m = "fst (cartesian_mask (line_draw E) (n, nx, ny) g False True True 8 r)"
  have ml: "fst (snd (snd (fst (prep_input E im g r)))) = to_lasagne_format_mask ?m"
    by (simp add: prep_input_mask_l prep_input_mask_def assms(1))
  have "to_lasagne_format_mask ?m ! b = [?m ! b, ?m ! b]"
    using assms(2) by (simp add: to_lasagne_format_mask_def cartesian_mask_length)
  then have "to_lasagne_format_mask ?m ! b ! c = ?m ! b"
    using assms(3) by (cases c) simp_all
  then show ?thesis
    unfolding ml using cartesian_mask_forced[OF assms(2,4,5,6)] by simp
qed

text \<open>
  Claim C6. In every mask generated with \<open>sample_centre = True\<close> and \<open>sample_n = k\<close>,
  whatever \<open>ivar\<close>, the random draw and the other flags are, every entry of each of
  the \<open>k\<close> lowest-frequency lines is 1. Line \<open>i\<close> is one of them when its frequency
  \<open>f\<close>, in the order the mask is stored in, has \<open>- (k div 2) \<le> f < k - k div 2\<close>: these
  are \<open>k\<close> lines when \<open>k \<le> Nx\<close>, and no other frequency has a smaller magnitude. In
  particular the mask that \<open>prep_input\<close> returns has its 8 lowest-frequency lines set
  to 1, in both channels.
\<close>

theorem cartesian_mask_centre_lines:
  "(\<forall>b<N. \<forall>i<Nx. \<forall>y<Ny. lowest_freq k (line_freq centred Nx i) \<longrightarrow>
        fst (cartesian_mask ld (N, Nx, Ny) ivar centred shf True k r) ! b ! i ! y) \<and>
   (k \<le> Nx \<longrightarrow> card {i. i < Nx \<and> lowest_freq k (line_freq centred Nx i)} = k) \<and>
   (\<forall>f f'. lowest_freq k f \<and> \<not> lowest_freq k f' \<longrightarrow> \<bar>f\<bar> \<le> \<bar>f'\<bar>) \<and>
   (case prep_input E im g r of
      ((im_und_l, k_und_l, mask_l, im_gnd_l), r') \<Rightarrow>
        (case shape3 im of
           (n, nx, ny) \<Rightarrow>
             \<forall>b<n. \<forall>c<2. \<forall>i<nx. \<forall>y<ny.
               lowest_freq 8 (line_freq False nx i) \<longrightarrow> mask_l ! b ! c ! i ! y))"
proof (intro conjI)
  show "\<forall>b<N. \<forall>i<Nx. \<forall>y<Ny. lowest_freq k (line_freq centred Nx i) \<longrightarrow>
        fst (cartesian_mask ld (N, Nx, Ny) ivar centred shf True k r) ! b ! i ! y"
    by (intro allI impI) (rule cartesian_mask_forced)
  show "k \<le> Nx \<longrightarrow> card {i. i < Nx \<and> lowest_freq k (line_freq centred Nx i)} = k"
    by (intro impI) (rule lowest_lines_card)
  show "\<forall>f f'. lowest_freq k f \<and> \<not> lowest_freq k f' \<longrightarrow> \<bar>f\<bar> \<le> \<bar>f'\<bar>"
    by (intro allI impI, elim conjE) (rule lowest_freq_abs)
  show "case prep_input E im g r of
      ((im_und_l, k_und_l, mask_l, im_gnd_l), r') \<Rightarrow>
        (case shape3 im of
           (n, nx, ny) \<Rightarrow>
             \<forall>b<n. \<forall>c<2. \<forall>i<nx. \<forall>y<ny.
               lowest_freq 8 (line_freq False nx i) \<longrightarrow> mask_l ! b ! c ! i ! y)"
  proof -
    obtain n nx ny where sh: "shape3 im = (n, nx, ny)" by (rule prod_cases3)
    obtain a1 a2 a3 a4 r' where p: "prep_input E im g r = ((a1, a2, a3, a4), r')"
      by (metis prod.exhaust)
    have m: "fst (snd (snd (fst (prep_input E im g r)))) = a3" by (simp add: p)
    have "a3 ! b ! c ! i ! y"
      if "b < n" "c < 2" "i < nx" "y < ny" "lowest_freq 8 (line_freq False nx i)" for b c i y
      using prep_input_mask_forced[OF sh that, of E g r] unfolding m .
    then show ?thesis unfolding p sh prod.case by blast
  qed
qed

theorem cartesian_mask_centre_lines_witness:
  "fst (cartesian_mask (line_draw env0) (2, 8, 2) (3 / 2000) False True True 3 0) ! 1 ! 7 ! 1 \<and>
   card {i. i < 8 \<and> lowest_freq 3 (line_freq False 8 i)} = 3 \<and>
   fst (snd (snd (fst (prep_input env0 [replicate 16 [(1, 0), (1, 0)]] (3 / 2000) 0))))
     ! 0 ! 1 ! 13 ! 1"
proof -
  let ?im = "[replicate 16 [(1::real, 0::real), (1, 0)]]"
  note th = cartesian_mask_centre_lines[where N=2 and Nx=8 and Ny=2 and k=3 and centred=False
      and ld="line_draw env0" and ivar="3 / 2000" and shf=True and r=0
      and E=env0 and im="?im" and g="3 / 2000"]
  have f: "lowest_freq 3 (line_freq False 8 7)"
    by (simp add: lowest_freq_def line_freq_def fftfreq_def)
  have a: "fst (cartesian_mask (line_draw env0) (2, 8, 2) (3 / 2000) False True True 3 0)
             ! 1 ! 7 ! 1"
    using th[THEN conjunct1] f by simp
  have b: "card {i. i < 8 \<and> lowest_freq 3 (line_freq False 8 i)} = 3"
    using th[THEN conjunct2, THEN conjunct1] by simp
  have sh: "shape3 ?im = (1, 16, 2)" by code_simp
  have f': "lowest_freq 8 (line_freq False 16 13)"
    by (simp add: lowest_freq_def line_freq_def fftfreq_def)
  have c: "fst (snd (snd (fst (prep_input env0 ?im (3 / 2000) 0)))) ! 0 ! 1 ! 13 ! 1"
    using th[THEN conjunct2, THEN conjunct2, THEN conjunct2] f'
    unfolding sh by (simp add: case_prod_beta)
  show ?thesis using a b c by simp
qed

subsection \<open>The acceleration rate\<close>

lemma replicate_rows_sum:
  "sum_list (map (\<lambda>row. length (filter id row)) (map (replicate Ny) bs))
   = Ny * length (filter id bs)"
  by (induction bs) simp_all

lemma replicate_rows_size: "sum_list (map length (map (replicate Ny) bs)) = Ny * length bs"
  by (induction bs) simp_all

lemma ifftshift_count: "length (filter P (ifftshift bs)) = length (filter P bs)"
proof -
  let ?m = "(length bs div 2) mod length bs"
  have "filter P bs = filter P (take ?m bs) @ filter P (drop ?m bs)"
    by (metis append_take_drop_id filter_append)
  then have "length (filter P bs)
             = length (filter P (take ?m bs)) + length (filter P (drop ?m bs))"
    by simp
  then show ?thesis by (simp add: ifftshift_def rotate_drop_take)
qed

lemma sum_list_const: "sum_list (map (\<lambda>b. c) xs) = length xs * (c::nat)"
  by (induction xs) simp_all

lemma mask_size_cartesian:
  "mask_size (fst (cartesian_mask ld (N, Nx, Ny) ivar centred shf sc k r)) = N * (Ny * Nx)"
  by (simp add: mask_size_def cartesian_mask_rows replicate_rows_size comp_def ifftshift_def
        sum_list_const)

lemma mask_line_sum:
  "sum_list (map (\<lambda>x. length (filter id (replicate Ny x)))
      ((if centred then id else ifftshift) (map L xs)))
   = Ny * length (filter L xs)"
proof -
  have "length (filter id ((if centred then id else ifftshift) (map L xs)))
        = length (filter id (map L xs))"
    by (simp add: ifftshift_count)
  also have "\<dots> = length (filter L xs)" by (simp add: filter_map comp_def)
  finally show ?thesis using replicate_rows_sum[of Ny "(if centred then id else ifftshift) (map L xs)"]
    by (simp add: comp_def)
qed

lemma mask_sum_cartesian:
  "mask_sum (fst (cartesian_mask ld (N, Nx, Ny) ivar centred shf sc k r))
   = Ny * sum_list (map (\<lambda>b. length (filter (\<lambda>j. fst (ld r ivar shf k) b j \<or>
                                  (sc \<and> lowest_freq k (centred_freq Nx j))) [0..<Nx]))
               [0..<N])"
  unfolding mask_sum_def cartesian_mask_rows map_map comp_def mask_line_sum
  by (rule sum_list_const_mult)

lemma length_filter_mono:
  "(\<And>x. x \<in> set xs \<Longrightarrow> Q x \<Longrightarrow> P x) \<Longrightarrow> length (filter Q xs) \<le> length (filter P xs)"
  by (induction xs) auto

lemma length_filter_less_iff:
  "length (filter P xs) < length xs \<longleftrightarrow> (\<exists>x\<in>set xs. \<not> P x)"
proof
  assume "length (filter P xs) < length xs"
  then have "filter P xs \<noteq> xs" by auto
  then show "\<exists>x\<in>set xs. \<not> P x" by (metis filter_True)
next
  assume "\<exists>x\<in>set xs. \<not> P x"
  then show "length (filter P xs) < length xs" by (auto intro: length_filter_less)
qed

lemma sum_list_upper: "(\<And>x. x \<in> set xs \<Longrightarrow> f x \<le> c) \<Longrightarrow> sum_list (map f xs) \<le> length xs * (c::nat)"
  by (induction xs) (auto intro: add_mono)

lemma sum_list_lower: "(\<And>x. x \<in> set xs \<Longrightarrow> c \<le> f x) \<Longrightarrow> length xs * (c::nat) \<le> sum_list (map f xs)"
  by (induction xs) (auto intro: add_mono)

lemma sum_list_below_iff:
  assumes "\<And>x. x \<in> set xs \<Longrightarrow> f x \<le> (c::nat)"
  shows "sum_list (map f xs) < length xs * c \<longleftrightarrow> (\<exists>x\<in>set xs. f x < c)"
  using assms
proof (induction xs)
  case Nil
  then show ?case by simp
next
  case (Cons x xs)
  have u: "sum_list (map f xs) \<le> length xs * c" using Cons.prems by (intro sum_list_upper) simp
  have x: "f x \<le> c" using Cons.prems by simp
  have ih: "sum_list (map f xs) < length xs * c \<longleftrightarrow> (\<exists>x\<in>set xs. f x < c)"
    using Cons.prems by (intro Cons.IH) simp
  have "f x + sum_list (map f xs) < c + length xs * c \<longleftrightarrow>
        f x < c \<or> sum_list (map f xs) < length xs * c"
    using u x by linarith
  then show ?case using ih by simp
qed

lemma acceleration_rate_eq:
  "acceleration_rate ld c g r =
     12800 / real (sum_list (map (\<lambda>b. length (filter (\<lambda>j. fst (ld r g True 8) b j \<or>
                                     lowest_freq 8 (centred_freq 128 j)) [0..<128]))
                       [0..<100]))"
  by (simp add: acceleration_rate_def mask_size_cartesian mask_sum_cartesian)

lemma centre_band_128: "length (filter (\<lambda>j. lowest_freq 8 (centred_freq 128 j)) [0..<128]) = 8"
  by code_simp

lemma line_count_bounds:
  "8 \<le> length (filter (\<lambda>j. d j \<or> lowest_freq 8 (centred_freq 128 j)) [0..<128])"
  "length (filter (\<lambda>j. d j \<or> lowest_freq 8 (centred_freq 128 j)) [0..<128]) \<le> 128"
proof -
  have "length (filter (\<lambda>j. lowest_freq 8 (centred_freq 128 j)) [0..<128])
        \<le> length (filter (\<lambda>j. d j \<or> lowest_freq 8 (centred_freq 128 j)) [0..<128])"
    by (rule length_filter_mono) simp
  then show "8 \<le> length (filter (\<lambda>j. d j \<or> lowest_freq 8 (centred_freq 128 j)) [0..<128])"
    by (simp only: centre_band_128)
  have "length (filter (\<lambda>j. d j \<or> lowest_freq 8 (centred_freq 128 j)) [0..<128])
        \<le> length [0..<128]"
    by (rule length_filter_le)
  then show "length (filter (\<lambda>j. d j \<or> lowest_freq 8 (centred_freq 128 j)) [0..<128]) \<le> 128"
    by simp
qed

lemma acceleration_rate_facts:
  fixes ld :: "'r \<Rightarrow> real \<Rightarrow> bool \<Rightarrow> nat \<Rightarrow> (nat \<Rightarrow> nat \<Rightarrow> bool) \<times> 'r"
  shows "1 \<le> acceleration_rate ld c g r"
    and "acceleration_rate ld c g r \<le> 16"
    and "1 < acceleration_rate ld c g r \<longleftrightarrow>
         (\<exists>b<100. \<exists>j<128. \<not> (fst (ld r g True 8) b j \<or> lowest_freq 8 (centred_freq 128 j)))"
proof -
  let ?L = "\<lambda>b j. fst (ld r g True 8) b j \<or> lowest_freq 8 (centred_freq 128 j)"
  let ?cnt = "\<lambda>b. length (filter (?L b) [0..<128])"
  let ?S = "sum_list (map ?cnt [0..<100])"
  have acc: "acceleration_rate ld c g r = 12800 / real ?S" by (rule acceleration_rate_eq)
  have "length [0..<100] * 8 \<le> ?S"
    by (rule sum_list_lower) (rule line_count_bounds(1))
  then have lo: "800 \<le> ?S" by simp
  have "?S \<le> length [0..<100] * 128"
    by (rule sum_list_upper) (rule line_count_bounds(2))
  then have hi: "?S \<le> 12800" by simp
  have rlo: "800 \<le> real ?S" using lo by linarith
  have rhi: "real ?S \<le> 12800" using hi by linarith
  show "1 \<le> acceleration_rate ld c g r"
    unfolding acc using rlo rhi by (simp add: field_simps)
  show "acceleration_rate ld c g r \<le> 16"
    unfolding acc using rlo rhi by (simp add: field_simps)
  have "1 < acceleration_rate ld c g r \<longleftrightarrow> real ?S < 12800"
    unfolding acc using rlo by (simp add: field_simps)
  also have "\<dots> \<longleftrightarrow> ?S < length [0..<100] * 128" by simp
  also have "\<dots> \<longleftrightarrow> (\<exists>b\<in>set [0..<100]. ?cnt b < 128)"
    by (rule sum_list_below_iff) (rule line_count_bounds(2))
  also have "\<dots> \<longleftrightarrow> (\<exists>b<100. ?cnt b < length [0..<128])" by auto
  also have "\<dots> \<longleftrightarrow> (\<exists>b<100. \<exists>j<128. \<not> ?L b j)"
    unfolding length_filter_less_iff by (simp add: Bex_def)
  finally show "1 < acceleration_rate ld c g r \<longleftrightarrow> (\<exists>b<100. \<exists>j<128. \<not> ?L b j)" .
qed

text \<open>
  The acceleration rate of the batch of 100 masks of shape 128 by 128 that \<open>__main__\<close>
  generates with \<open>sample_n = 8\<close>, \<open>sample_centre\<close> and \<open>sample_high_freq\<close>: whatever lines
  are drawn, \<open>mask.size / sum(mask)\<close> is at least 1 and at most 16, since the 8 forced
  lines of 128 bound it, and it is strictly greater than 1 exactly when the draw leaves
  a line of one of the masks unsampled. Which draws the sampler of the generator can
  make is not part of the model: the draw is a parameter.
\<close>

lemma acceleration_rate_bounds:
  "1 \<le> acceleration_rate ld c g r \<and>
   acceleration_rate ld c g r \<le> 16 \<and>
   acceleration_rate ld c g r < 20 \<and>
   (1 < acceleration_rate ld c g r \<longleftrightarrow>
      (\<exists>b<100. \<exists>j<128.
         \<not> (fst (ld r g True 8) b j \<or> lowest_freq 8 (centred_freq 128 j))))"
proof (intro conjI)
  show "1 \<le> acceleration_rate ld c g r" by (rule acceleration_rate_facts(1))
  show "acceleration_rate ld c g r \<le> 16" by (rule acceleration_rate_facts(2))
  then show "acceleration_rate ld c g r < 20" by linarith
  show "1 < acceleration_rate ld c g r \<longleftrightarrow>
      (\<exists>b<100. \<exists>j<128.
         \<not> (fst (ld r g True 8) b j \<or> lowest_freq 8 (centred_freq 128 j)))"
    by (rule acceleration_rate_facts(3))
qed

end
